theory Spec2Isabelle
  imports Main
begin

section \<open>Values decoded from JSON and the Python built-ins applied to them\<close>

text \<open>
  The scraper works on what \<^verbatim>\<open>resp.json()\<close> returns: \<^verbatim>\<open>None\<close>, booleans, unbounded
  integers, floats, strings, lists and dicts with string keys. A dict is an association
  list in insertion order and a key is looked up with \<open>map_of\<close>; the decoder yields
  every key once. One \<open>char\<close> stands for one character of a Python \<^verbatim>\<open>str\<close>.
  Floats are left abstract (the type parameter \<open>'f\<close>): what Python computes on them is
  taken from the library record below.
\<close>

datatype 'f json =
    JNull
  | JBool bool
  | JInt int
  | JFloat 'f
  | JStr string
  | JList "'f json list"
  | JObj "(string \<times> 'f json) list"

text \<open>
  The exceptions that can leave the two functions. \<open>SteamReviewsError\<close> is the
  program's own class; \<open>RequestException\<close> is what \<^verbatim>\<open>sess.get\<close> raises and
  \<open>JSONDecodeError\<close> what \<^verbatim>\<open>resp.json()\<close> raises.
\<close>

datatype pyerror =
    ValueError string
  | TypeError
  | AttributeError
  | OverflowError
  | SteamReviewsError string
  | RequestException
  | JSONDecodeError

text \<open>
  The part of the Python runtime that the program calls and that is not written out
  here: \<^verbatim>\<open>int(s)\<close> on text, \<^verbatim>\<open>int(x)\<close>, \<^verbatim>\<open>bool(x)\<close> and \<^verbatim>\<open>==\<close> on floats,
  \<^verbatim>\<open>repr\<close> (which \<^verbatim>\<open>str\<close> uses on floats, lists and dicts) and the argument check of
  \<^verbatim>\<open>time.sleep\<close>. Every theorem below holds for any such library.
\<close>

record 'f pylib =
  int_of_str :: "string \<Rightarrow> pyerror + int"
  int_of_float :: "'f \<Rightarrow> pyerror + int"
  bool_of_float :: "'f \<Rightarrow> bool"
  float_eq_int :: "'f \<Rightarrow> int \<Rightarrow> bool"
  float_eq :: "'f \<Rightarrow> 'f \<Rightarrow> bool"
  repr :: "'f json \<Rightarrow> string"
  sleep_error :: "'f \<Rightarrow> pyerror option"

text \<open>Raising is the left injection; \<open>bind\<close> runs the rest only after a normal return.\<close>

definition bind :: "pyerror + 'a \<Rightarrow> ('a \<Rightarrow> pyerror + 'b) \<Rightarrow> pyerror + 'b" where
  "bind m f = (case m of Inl e \<Rightarrow> Inl e | Inr x \<Rightarrow> f x)"

definition returns :: "pyerror + 'a \<Rightarrow> bool" where
  "returns m = (case m of Inl _ \<Rightarrow> False | Inr _ \<Rightarrow> True)"

text \<open>\<^verbatim>\<open>x.get(k, d)\<close>: only a dict has the method.\<close>

definition dict_get :: "(string \<times> 'f json) list \<Rightarrow> string \<Rightarrow> 'f json \<Rightarrow> 'f json" where
  "dict_get kvs k d = (case map_of kvs k of None \<Rightarrow> d | Some v \<Rightarrow> v)"

definition py_get :: "'f json \<Rightarrow> string \<Rightarrow> 'f json \<Rightarrow> pyerror + 'f json" where
  "py_get x k d =
     (case x of
        JObj kvs \<Rightarrow> Inr (dict_get kvs k d)
      | _ \<Rightarrow> Inl AttributeError)"

text \<open>\<^verbatim>\<open>bool(x)\<close>, the truth value that \<^verbatim>\<open>or\<close> and \<^verbatim>\<open>not\<close> test.\<close>

definition py_bool :: "'f pylib \<Rightarrow> 'f json \<Rightarrow> bool" where
  "py_bool lib x =
     (case x of
        JNull \<Rightarrow> False
      | JBool b \<Rightarrow> b
      | JInt i \<Rightarrow> i \<noteq> 0
      | JFloat f \<Rightarrow> bool_of_float lib f
      | JStr s \<Rightarrow> s \<noteq> []
      | JList xs \<Rightarrow> xs \<noteq> []
      | JObj kvs \<Rightarrow> kvs \<noteq> [])"

text \<open>\<^verbatim>\<open>x or y\<close>\<close>

definition py_or :: "'f pylib \<Rightarrow> 'f json \<Rightarrow> 'f json \<Rightarrow> 'f json" where
  "py_or lib x y = (if py_bool lib x then x else y)"

text \<open>\<^verbatim>\<open>int(x)\<close>\<close>

definition py_int :: "'f pylib \<Rightarrow> 'f json \<Rightarrow> pyerror + int" where
  "py_int lib x =
     (case x of
        JNull \<Rightarrow> Inl TypeError
      | JBool b \<Rightarrow> Inr (if b then 1 else 0)
      | JInt i \<Rightarrow> Inr i
      | JFloat f \<Rightarrow> int_of_float lib f
      | JStr s \<Rightarrow> int_of_str lib s
      | JList xs \<Rightarrow> Inl TypeError
      | JObj kvs \<Rightarrow> Inl TypeError)"

text \<open>Decimal digits of a natural number, and \<^verbatim>\<open>str\<close> of an integer.\<close>

function dec_digits :: "nat \<Rightarrow> string" where
  "dec_digits n =
     (if n < 10 then [''0123456789'' ! n]
      else dec_digits (n div 10) @ [''0123456789'' ! (n mod 10)])"
  by pat_completeness auto
termination
  by (relation "measure id") auto

definition str_int :: "int \<Rightarrow> string" where
  "str_int i = (if i < 0 then CHR ''-'' # dec_digits (nat (- i)) else dec_digits (nat i))"

text \<open>\<^verbatim>\<open>str(x)\<close>: a string is itself, everything else is printed as \<^verbatim>\<open>repr\<close> prints it.\<close>

definition py_str :: "'f pylib \<Rightarrow> 'f json \<Rightarrow> string" where
  "py_str lib x =
     (case x of
        JNull \<Rightarrow> ''None''
      | JBool b \<Rightarrow> (if b then ''True'' else ''False'')
      | JInt i \<Rightarrow> str_int i
      | JStr s \<Rightarrow> s
      | _ \<Rightarrow> repr lib x)"

section \<open>The normalizer\<close>

text \<open>
  The dataclass \<^verbatim>\<open>NormalizedReview\<close>. Python does not enforce the annotations:
  \<open>language\<close> and \<open>review\<close> receive the value of \<^verbatim>\<open>r.get(...)\<close> as it is, so their
  type here is a JSON value; every other field goes through \<^verbatim>\<open>str\<close>, \<^verbatim>\<open>int\<close> or
  \<^verbatim>\<open>bool\<close>.
\<close>

record 'f NormalizedReview =
  recommendationid :: string
  steamid :: string
  language :: "'f json"
  review :: "'f json"
  voted_up :: bool
  timestamp_created :: int
  timestamp_updated :: int
  author_num_games_owned :: int
  author_num_reviews :: int
  author_playtime_forever :: int
  author_playtime_last_two_weeks :: int
  author_playtime_at_review :: int
  votes_up :: int
  votes_funny :: int
  weighted_vote_score :: string
  comment_count :: int
  steam_purchase :: bool
  received_for_free :: bool
  written_during_early_access :: bool

text \<open>The four shapes of a field expression in \<^verbatim>\<open>_normalize_review\<close>.\<close>

definition get_str :: "'f pylib \<Rightarrow> 'f json \<Rightarrow> string \<Rightarrow> pyerror + string" where
  "get_str lib x k = bind (py_get x k (JStr [])) (\<lambda>v. Inr (py_str lib v))"

definition get_asis :: "'f json \<Rightarrow> string \<Rightarrow> pyerror + 'f json" where
  "get_asis x k = py_get x k (JStr [])"

definition get_bool :: "'f pylib \<Rightarrow> 'f json \<Rightarrow> string \<Rightarrow> pyerror + bool" where
  "get_bool lib x k = bind (py_get x k (JBool False)) (\<lambda>v. Inr (py_bool lib v))"

definition get_int :: "'f pylib \<Rightarrow> 'f json \<Rightarrow> string \<Rightarrow> pyerror + int" where
  "get_int lib x k = bind (py_get x k (JInt 0)) (py_int lib)"

text \<open>
  \<^verbatim>\<open>_normalize_review\<close>: the author first, then the keyword arguments in the order
  they are written; the first expression that raises ends the call.
\<close>

definition normalize_review :: "'f pylib \<Rightarrow> 'f json \<Rightarrow> pyerror + 'f NormalizedReview" where
  "normalize_review lib r =
     bind (py_get r ''author'' (JObj [])) (\<lambda>a0.
     let a = py_or lib a0 (JObj []) in
     bind (get_str lib r ''recommendationid'') (\<lambda>v1.
     bind (get_str lib a ''steamid'') (\<lambda>v2.
     bind (get_asis r ''language'') (\<lambda>v3.
     bind (get_asis r ''review'') (\<lambda>v4.
     bind (get_bool lib r ''voted_up'') (\<lambda>v5.
     bind (get_int lib r ''timestamp_created'') (\<lambda>v6.
     bind (get_int lib r ''timestamp_updated'') (\<lambda>v7.
     bind (get_int lib a ''num_games_owned'') (\<lambda>v8.
     bind (get_int lib a ''num_reviews'') (\<lambda>v9.
     bind (get_int lib a ''playtime_forever'') (\<lambda>v10.
     bind (get_int lib a ''playtime_last_two_weeks'') (\<lambda>v11.
     bind (get_int lib a ''playtime_at_review'') (\<lambda>v12.
     bind (get_int lib r ''votes_up'') (\<lambda>v13.
     bind (get_int lib r ''votes_funny'') (\<lambda>v14.
     bind (get_str lib r ''weighted_vote_score'') (\<lambda>v15.
     bind (get_int lib r ''comment_count'') (\<lambda>v16.
     bind (get_bool lib r ''steam_purchase'') (\<lambda>v17.
     bind (get_bool lib r ''received_for_free'') (\<lambda>v18.
     bind (get_bool lib r ''written_during_early_access'') (\<lambda>v19.
     Inr \<lparr> recommendationid = v1, steamid = v2, language = v3, review = v4,
           voted_up = v5, timestamp_created = v6, timestamp_updated = v7,
           author_num_games_owned = v8, author_num_reviews = v9,
           author_playtime_forever = v10, author_playtime_last_two_weeks = v11,
           author_playtime_at_review = v12, votes_up = v13, votes_funny = v14,
           weighted_vote_score = v15, comment_count = v16, steam_purchase = v17,
           received_for_free = v18, written_during_early_access = v19 \<rparr>
     ))))))))))))))))))))"

section \<open>The paginator\<close>

subsection \<open>Cursors as set elements\<close>

text \<open>
  \<^verbatim>\<open>seen_cursors\<close> is a Python set and the cursor is whatever \<^verbatim>\<open>data.get("cursor", cursor)\<close>
  returned. A list or a dict is unhashable, so the membership test raises \<open>TypeError\<close>;
  the hashable values are compared with \<^verbatim>\<open>==\<close>, under which \<^verbatim>\<open>True\<close> is \<open>1\<close> and a
  float may equal an integer.
\<close>

datatype 'f key = KNone | KNum int | KFloat 'f | KStr string

definition to_key :: "'f json \<Rightarrow> 'f key option" where
  "to_key x =
     (case x of
        JNull \<Rightarrow> Some KNone
      | JBool b \<Rightarrow> Some (KNum (if b then 1 else 0))
      | JInt i \<Rightarrow> Some (KNum i)
      | JFloat f \<Rightarrow> Some (KFloat f)
      | JStr s \<Rightarrow> Some (KStr s)
      | JList xs \<Rightarrow> None
      | JObj kvs \<Rightarrow> None)"

fun key_eq :: "'f pylib \<Rightarrow> 'f key \<Rightarrow> 'f key \<Rightarrow> bool" where
  "key_eq lib KNone KNone = True"
| "key_eq lib (KNum i) (KNum j) = (i = j)"
| "key_eq lib (KNum i) (KFloat g) = float_eq_int lib g i"
| "key_eq lib (KFloat f) (KNum j) = float_eq_int lib f j"
| "key_eq lib (KFloat f) (KFloat g) = float_eq lib f g"
| "key_eq lib (KStr s) (KStr t) = (s = t)"
| "key_eq lib _ _ = False"

text \<open>\<^verbatim>\<open>k in seen\<close> for a hashable \<open>k\<close>.\<close>

definition seen :: "'f pylib \<Rightarrow> 'f key list \<Rightarrow> 'f key \<Rightarrow> bool" where
  "seen lib ks k = list_ex (\<lambda>s. key_eq lib s k) ks"

text \<open>\<^verbatim>\<open>x == i\<close> for an integer \<open>i\<close>, as in \<^verbatim>\<open>data.get("success") != 1\<close>.\<close>

definition eq_int :: "'f pylib \<Rightarrow> 'f json \<Rightarrow> int \<Rightarrow> bool" where
  "eq_int lib x i =
     (case x of
        JBool b \<Rightarrow> (if b then 1 else 0) = i
      | JInt j \<Rightarrow> j = i
      | JFloat f \<Rightarrow> float_eq_int lib f i
      | _ \<Rightarrow> False)"

text \<open>
  Iterating a truthy \<^verbatim>\<open>page_reviews\<close>, as \<^verbatim>\<open>extend\<close> and \<^verbatim>\<open>for r in\<close> do: a list
  gives its elements, a string its characters, a dict its keys; a number is not
  iterable.
\<close>

definition py_iter :: "'f json \<Rightarrow> pyerror + 'f json list" where
  "py_iter x =
     (case x of
        JList xs \<Rightarrow> Inr xs
      | JStr s \<Rightarrow> Inr (map (\<lambda>c. JStr [c]) s)
      | JObj kvs \<Rightarrow> Inr (map (\<lambda>kv. JStr (fst kv)) kvs)
      | _ \<Rightarrow> Inl TypeError)"

text \<open>The slice \<^verbatim>\<open>xs[:m]\<close>; a negative \<open>m\<close> counts from the end.\<close>

definition slice_to :: "'a list \<Rightarrow> int \<Rightarrow> 'a list" where
  "slice_to xs m = (if 0 \<le> m then take (nat m) xs else take (nat (int (length xs) + m)) xs)"

subsection \<open>Configuration, requests and responses\<close>

text \<open>
  The seven filter arguments travel together: they go into every request and are
  echoed in the result. \<open>filter_mode\<close> is sent under the key \<^verbatim>\<open>filter\<close>; the
  constant \<^verbatim>\<open>json=1\<close> is part of every request and is not repeated here.
\<close>

record query =
  language' :: string
  review_type :: string
  purchase_type :: string
  filter_mode :: string
  day_range :: int
  num_per_page :: int
  filter_offtopic_activity :: int

record 'f config = query +
  appid :: int
  include_raw :: bool
  normalize' :: bool
  max_reviews :: "int option"
  sleep_seconds :: 'f
  timeout_seconds :: 'f

record 'f request =
  url_appid :: int
  params_cursor :: "'f json"
  params_query :: query
  timeout :: 'f

text \<open>
  What \<^verbatim>\<open>sess.get\<close> returns: the status, the body as text and what \<^verbatim>\<open>resp.json()\<close>
  makes of the body. The transport is given the number of requests issued before and
  the request, and either raises or answers.
\<close>

record 'f response =
  status_code :: int
  body_text :: string
  body_json :: "pyerror + 'f json"

type_synonym 'f transport = "nat \<Rightarrow> 'f request \<Rightarrow> pyerror + 'f response"

text \<open>What the run does to the outside world, in order.\<close>

datatype 'f event = Request "'f request" | Sleep 'f

fun is_request :: "'f event \<Rightarrow> bool" where
  "is_request (Request _) = True"
| "is_request (Sleep _) = False"

datatype 'f out_review = Normalized "'f NormalizedReview" | AsIs "'f json"

record 'f loop_state =
  cursor :: "'f json"
  seen_cursors :: "'f key list"
  normalized_reviews :: "'f out_review list"
  raw_reviews :: "'f json list"
  events :: "'f event list"

record 'f fetch_result =
  res_appid :: int
  fetched_at_utc :: string
  request_params :: query
  count :: nat
  last_cursor :: "'f json"
  reviews :: "'f out_review list"
  res_raw_reviews :: "'f json list option"

subsection \<open>One pass through the loop body\<close>

fun normalize_all :: "'f pylib \<Rightarrow> 'f json list \<Rightarrow> pyerror + 'f out_review list" where
  "normalize_all lib [] = Inr []"
| "normalize_all lib (r # rs) =
     bind (normalize_review lib r) (\<lambda>n.
     bind (normalize_all lib rs) (\<lambda>ns. Inr (Normalized n # ns)))"

definition query_of :: "'f config \<Rightarrow> query" where
  "query_of cfg =
     \<lparr> language' = language' cfg, review_type = review_type cfg,
       purchase_type = purchase_type cfg, filter_mode = filter_mode cfg,
       day_range = day_range cfg, num_per_page = num_per_page cfg,
       filter_offtopic_activity = filter_offtopic_activity cfg \<rparr>"

definition request_for :: "'f config \<Rightarrow> 'f json \<Rightarrow> 'f request" where
  "request_for cfg c =
     \<lparr> url_appid = appid cfg, params_cursor = c, params_query = query_of cfg,
       timeout = timeout_seconds cfg \<rparr>"

definition cap_reached :: "'f config \<Rightarrow> 'a list \<Rightarrow> bool" where
  "cap_reached cfg xs =
     (case max_reviews cfg of None \<Rightarrow> False | Some m \<Rightarrow> m \<le> int (length xs))"

datatype 'f step =
    Continue "'f loop_state"
  | Break "'f loop_state"
  | Raise "'f loop_state" pyerror

text \<open>
  From a fetched page on (lines 137 to 163): the empty page, the appends, the cap and
  the delay.
\<close>

definition take_page ::
  "'f pylib \<Rightarrow> 'f config \<Rightarrow> 'f loop_state \<Rightarrow> (string \<times> 'f json) list \<Rightarrow> 'f step" where
  "take_page lib cfg st data =
     (let page_reviews = py_or lib (dict_get data ''reviews'' JNull) (JList []);
          next_cursor = dict_get data ''cursor'' (cursor st)
      in
      if \<not> py_bool lib page_reviews then Break (st\<lparr>cursor := next_cursor\<rparr>)
      else
        (case py_iter page_reviews of
           Inl e \<Rightarrow> Raise st e
         | Inr items \<Rightarrow>
             (case (if normalize' cfg then normalize_all lib items
                    else Inr (map AsIs items)) of
                Inl e \<Rightarrow> Raise st e
              | Inr outs \<Rightarrow>
                  (let raw = (if include_raw cfg then raw_reviews st @ items
                              else raw_reviews st);
                       norm = normalized_reviews st @ outs
                   in
                   if cap_reached cfg norm then
                     Break (st\<lparr>cursor := next_cursor,
                               normalized_reviews := slice_to norm (the (max_reviews cfg)),
                               raw_reviews := (if include_raw cfg
                                               then slice_to raw (the (max_reviews cfg))
                                               else raw)\<rparr>)
                   else
                     (case sleep_error lib (sleep_seconds cfg) of
                        Some e \<Rightarrow>
                          Raise (st\<lparr>cursor := next_cursor, normalized_reviews := norm,
                                    raw_reviews := raw\<rparr>) e
                      | None \<Rightarrow>
                          Continue (st\<lparr>cursor := next_cursor, normalized_reviews := norm,
                                       raw_reviews := raw,
                                       events := events st @ [Sleep (sleep_seconds cfg)]\<rparr>))))))"

text \<open>
  The request and the checks on its answer (lines 116 to 135): the \<open>i\<close>-th request of
  the run carries the cursor \<open>c\<close>; the result is the decoded payload, a dict whose
  success indicator is \<open>1\<close>.
\<close>

definition fetch_page ::
  "'f pylib \<Rightarrow> 'f transport \<Rightarrow> 'f config \<Rightarrow> nat \<Rightarrow> 'f json
     \<Rightarrow> pyerror + (string \<times> 'f json) list" where
  "fetch_page lib transport cfg i c =
     (case transport i (request_for cfg c) of
        Inl e \<Rightarrow> Inl e
      | Inr resp \<Rightarrow>
          if status_code resp \<noteq> 200 then
            Inl (SteamReviewsError
              (''HTTP '' @ str_int (status_code resp) @ '': '' @ take 300 (body_text resp)))
          else
            (case body_json resp of
               Inl e \<Rightarrow> Inl e
             | Inr (JObj data) \<Rightarrow>
                 if \<not> eq_int lib (dict_get data ''success'' JNull) 1 then
                   Inl (SteamReviewsError
                     (''Steam returned success=''
                        @ py_str lib (dict_get data ''success'' JNull)
                        @ '': '' @ py_str lib (JObj data)))
                 else Inr data
             | Inr _ \<Rightarrow> Inl AttributeError))"

text \<open>The number of requests issued so far.\<close>

definition request_no :: "'f loop_state \<Rightarrow> nat" where
  "request_no st = length (filter is_request (events st))"

text \<open>
  The guard at the top of the loop (lines 112 to 114): whether the pass that starts in
  \<open>st\<close> gets past it and issues a request.
\<close>

definition issues_request :: "'f pylib \<Rightarrow> 'f loop_state \<Rightarrow> bool" where
  "issues_request lib st =
     (case to_key (cursor st) of
        None \<Rightarrow> False
      | Some k \<Rightarrow> \<not> seen lib (seen_cursors st) k)"

text \<open>One pass through the body of \<^verbatim>\<open>while True\<close>.\<close>

definition loop_body ::
  "'f pylib \<Rightarrow> 'f transport \<Rightarrow> 'f config \<Rightarrow> 'f loop_state \<Rightarrow> 'f step" where
  "loop_body lib transport cfg st =
     (case to_key (cursor st) of
        None \<Rightarrow> Raise st TypeError
      | Some k \<Rightarrow>
          if seen lib (seen_cursors st) k then Break st
          else
            (let st' = st\<lparr>seen_cursors := seen_cursors st @ [k],
                          events := events st @ [Request (request_for cfg (cursor st))]\<rparr>
             in
             case fetch_page lib transport cfg (request_no st) (cursor st) of
               Inl e \<Rightarrow> Raise st' e
             | Inr data \<Rightarrow> take_page lib cfg st' data))"

subsection \<open>The loop and the whole call\<close>

text \<open>
  \<^verbatim>\<open>while True\<close> has no bound of its own: a transport that keeps answering with
  non-empty pages and fresh cursors keeps it running. The loop is therefore a partial
  function, \<open>None\<close> being the run that never ends; a finished run gives the last state
  and the exception, if one was raised.
\<close>

partial_function (option) fetch_loop ::
  "'f pylib \<Rightarrow> 'f transport \<Rightarrow> 'f config \<Rightarrow> 'f loop_state
     \<Rightarrow> ('f loop_state \<times> pyerror option) option" where
  "fetch_loop lib transport cfg st =
     (case loop_body lib transport cfg st of
        Continue st' \<Rightarrow> fetch_loop lib transport cfg st'
      | Break st' \<Rightarrow> Some (st', None)
      | Raise st' e \<Rightarrow> Some (st', Some e))"

definition initial_state :: "'f loop_state" where
  "initial_state =
     \<lparr> cursor = JStr ''*'', seen_cursors = [], normalized_reviews = [],
       raw_reviews = [], events = [] \<rparr>"

definition result_of :: "string \<Rightarrow> 'f config \<Rightarrow> 'f loop_state \<Rightarrow> 'f fetch_result" where
  "result_of now cfg st =
     \<lparr> res_appid = appid cfg, fetched_at_utc = now, request_params = query_of cfg,
       count = length (normalized_reviews st), last_cursor = cursor st,
       reviews = normalized_reviews st,
       res_raw_reviews = (if include_raw cfg then Some (raw_reviews st) else None) \<rparr>"

text \<open>The outcome of a finished loop: the log, and the exception or the result.\<close>

definition finish ::
  "string \<Rightarrow> 'f config \<Rightarrow> 'f loop_state \<times> pyerror option
     \<Rightarrow> 'f event list \<times> (pyerror + 'f fetch_result)" where
  "finish now cfg out =
     (case out of
        (st, Some e) \<Rightarrow> (events st, Inl e)
      | (st, None) \<Rightarrow> (events st, Inr (result_of now cfg st)))"

text \<open>
  \<^verbatim>\<open>fetch_all_steam_reviews_for_app\<close>; \<open>now\<close> is the reading of the clock that goes
  into \<^verbatim>\<open>fetched_at_utc\<close>.
\<close>

definition fetch_all_steam_reviews_for_app ::
  "'f pylib \<Rightarrow> 'f transport \<Rightarrow> string \<Rightarrow> 'f config
     \<Rightarrow> ('f event list \<times> (pyerror + 'f fetch_result)) option" where
  "fetch_all_steam_reviews_for_app lib transport now cfg =
     (if \<not> (1 \<le> num_per_page cfg \<and> num_per_page cfg \<le> 100) then
        Some ([], Inl (ValueError ''num_per_page must be between 1 and 100''))
      else
        map_option (finish now cfg) (fetch_loop lib transport cfg initial_state))"

text \<open>
  The state at the top of the loop after \<open>n\<close> passes that all went on to the next one.
\<close>

fun after_passes ::
  "'f pylib \<Rightarrow> 'f transport \<Rightarrow> 'f config \<Rightarrow> nat \<Rightarrow> 'f loop_state \<Rightarrow> 'f loop_state option" where
  "after_passes lib transport cfg 0 st = Some st"
| "after_passes lib transport cfg (Suc n) st =
     (case loop_body lib transport cfg st of
        Continue st' \<Rightarrow> after_passes lib transport cfg n st'
      | _ \<Rightarrow> None)"

section \<open>A library instance for running examples\<close>

text \<open>
  Three floats (\<^verbatim>\<open>nan\<close>, the default delay \<^verbatim>\<open>0.25\<close> and the default timeout \<^verbatim>\<open>30.0\<close>)
  and the built-ins on them and on text of ASCII characters, as CPython computes them.
\<close>

datatype sample_float = F_nan | F_0_25 | F_30_0

definition is_space :: "char \<Rightarrow> bool" where
  "is_space c = (c \<in> set [CHR 0x09, CHR 0x0A, CHR 0x0B, CHR 0x0C, CHR 0x0D,
                           CHR 0x1C, CHR 0x1D, CHR 0x1E, CHR 0x1F, CHR 0x20])"

definition is_digit :: "char \<Rightarrow> bool" where
  "is_digit c = (c \<in> set ''0123456789'')"

definition digit_value :: "char \<Rightarrow> int" where
  "digit_value c = int (of_char c) - 48"

text \<open>
  Digits with single underscores between them (\<^verbatim>\<open>1_000\<close>); \<open>prev\<close> tells whether the
  character before was a digit.
\<close>

fun digits_value :: "bool \<Rightarrow> int \<Rightarrow> string \<Rightarrow> int option" where
  "digits_value prev acc [] = (if prev then Some acc else None)"
| "digits_value prev acc (c # cs) =
     (if is_digit c then digits_value True (10 * acc + digit_value c) cs
      else if c = CHR ''_'' \<and> prev then digits_value False acc cs
      else None)"

definition strip :: "string \<Rightarrow> string" where
  "strip s = rev (dropWhile is_space (rev (dropWhile is_space s)))"

definition parse_int :: "string \<Rightarrow> int option" where
  "parse_int s =
     (case strip s of
        [] \<Rightarrow> None
      | c # cs \<Rightarrow>
          if c = CHR ''-'' then map_option uminus (digits_value False 0 cs)
          else if c = CHR ''+'' then digits_value False 0 cs
          else digits_value False 0 (c # cs))"

definition hex2 :: "nat \<Rightarrow> string" where
  "hex2 n = [''0123456789abcdef'' ! (n div 16), ''0123456789abcdef'' ! (n mod 16)]"

definition repr_char :: "char \<Rightarrow> char \<Rightarrow> string" where
  "repr_char q c =
     (if c = q \<or> c = CHR 0x5C then [CHR 0x5C, c]
      else if c = CHR 0x09 then [CHR 0x5C, CHR ''t'']
      else if c = CHR 0x0A then [CHR 0x5C, CHR ''n'']
      else if c = CHR 0x0D then [CHR 0x5C, CHR ''r'']
      else if (of_char c :: nat) < 32 \<or> (of_char c :: nat) = 127
        then [CHR 0x5C, CHR ''x''] @ hex2 (of_char c)
      else [c])"

definition repr_str :: "string \<Rightarrow> string" where
  "repr_str s =
     (let q = (if CHR 0x27 \<in> set s \<and> CHR 0x22 \<notin> set s then CHR 0x22 else CHR 0x27)
      in [q] @ concat (map (repr_char q) s) @ [q])"

fun join :: "string \<Rightarrow> string list \<Rightarrow> string" where
  "join sep [] = []"
| "join sep [x] = x"
| "join sep (x # y # ys) = x @ sep @ join sep (y # ys)"

fun sample_repr :: "sample_float json \<Rightarrow> string" where
  "sample_repr JNull = ''None''"
| "sample_repr (JBool b) = (if b then ''True'' else ''False'')"
| "sample_repr (JInt i) = str_int i"
| "sample_repr (JFloat F_nan) = ''nan''"
| "sample_repr (JFloat F_0_25) = ''0.25''"
| "sample_repr (JFloat F_30_0) = ''30.0''"
| "sample_repr (JStr s) = repr_str s"
| "sample_repr (JList xs) = ''['' @ join '', '' (map sample_repr xs) @ '']''"
| "sample_repr (JObj kvs) =
     ''{'' @ join '', '' (map (\<lambda>kv. repr_str (fst kv) @ '': '' @ sample_repr (snd kv)) kvs) @ ''}''"

definition sample_lib :: "sample_float pylib" where
  "sample_lib =
     \<lparr> int_of_str = (\<lambda>s. case parse_int s of
                           None \<Rightarrow> Inl (ValueError
                             (''invalid literal for int() with base 10: '' @ repr_str s))
                         | Some i \<Rightarrow> Inr i),
       int_of_float = (\<lambda>f. case f of
                           F_nan \<Rightarrow> Inl (ValueError ''cannot convert float NaN to integer'')
                         | F_0_25 \<Rightarrow> Inr 0
                         | F_30_0 \<Rightarrow> Inr 30),
       bool_of_float = (\<lambda>f. True),
       float_eq_int = (\<lambda>f i. f = F_30_0 \<and> i = 30),
       float_eq = (\<lambda>f g. f = g \<and> f \<noteq> F_nan),
       repr = sample_repr,
       sleep_error = (\<lambda>f. case f of
                           F_nan \<Rightarrow> Some (ValueError ''Invalid value NaN (not a number)'')
                         | _ \<Rightarrow> None) \<rparr>"

text \<open>A configuration with the defaults of the signature, and answers to serve.\<close>

definition sample_config :: "sample_float config" where
  "sample_config =
     \<lparr> language' = ''all'', review_type = ''all'', purchase_type = ''all'',
       filter_mode = ''recent'', day_range = 9223372036854775807, num_per_page = 100,
       filter_offtopic_activity = 1, appid = 413150, include_raw = False,
       normalize' = True, max_reviews = None, sleep_seconds = F_0_25,
       timeout_seconds = F_30_0 \<rparr>"

definition page_response :: "'f json list \<Rightarrow> 'f json \<Rightarrow> 'f response" where
  "page_response recs c =
     \<lparr> status_code = 200, body_text = [],
       body_json = Inr (JObj [(''success'', JInt 1), (''cursor'', c),
                              (''reviews'', JList recs)]) \<rparr>"

text \<open>
  An endpoint that answers the \<open>i\<close>-th request with the \<open>i\<close>-th response of a list and
  refuses the connection afterwards.
\<close>

definition serve :: "'f response list \<Rightarrow> 'f transport" where
  "serve rs i req = (if i < length rs then Inr (rs ! i) else Inl RequestException)"

definition review_of :: "string \<Rightarrow> 'f json" where
  "review_of rid =
     JObj [(''recommendationid'', JStr rid), (''language'', JStr ''english''),
           (''voted_up'', JBool True), (''votes_up'', JStr ''12''),
           (''author'', JObj [(''steamid'', JStr ''7656''), (''num_reviews'', JInt 3)])]"

section \<open>Properties to be stated\<close>

subsection \<open>Of the normalizer\<close>

text \<open>An integer field is fit for \<^verbatim>\<open>int\<close>: absent, or a value that \<^verbatim>\<open>int\<close> accepts.\<close>

definition int_ready :: "'f pylib \<Rightarrow> (string \<times> 'f json) list \<Rightarrow> string \<Rightarrow> bool" where
  "int_ready lib kvs k =
     (case map_of kvs k of None \<Rightarrow> True | Some v \<Rightarrow> returns (py_int lib v))"

text \<open>The author of a record: the field when it is there and truthy, the empty dict otherwise.\<close>

definition author_of :: "'f pylib \<Rightarrow> (string \<times> 'f json) list \<Rightarrow> 'f json" where
  "author_of lib kvs =
     (case map_of kvs ''author'' of
        None \<Rightarrow> JObj []
      | Some v \<Rightarrow> if py_bool lib v then v else JObj [])"

definition top_int_fields :: "string list" where
  "top_int_fields =
     [''timestamp_created'', ''timestamp_updated'', ''votes_up'', ''votes_funny'',
      ''comment_count'']"

definition author_int_fields :: "string list" where
  "author_int_fields =
     [''num_games_owned'', ''num_reviews'', ''playtime_forever'',
      ''playtime_last_two_weeks'', ''playtime_at_review'']"

text \<open>
  The records that can be normalized: a dict whose author is a dict and whose integer
  fields, its own and the author's, are all fit for \<^verbatim>\<open>int\<close>.
\<close>

definition normalizable :: "'f pylib \<Rightarrow> 'f json \<Rightarrow> bool" where
  "normalizable lib r =
     (case r of
        JObj kvs \<Rightarrow>
          (case author_of lib kvs of
             JObj a \<Rightarrow>
               list_all (int_ready lib kvs) top_int_fields \<and>
               list_all (int_ready lib a) author_int_fields
           | _ \<Rightarrow> False)
      | _ \<Rightarrow> False)"

text \<open>
  The default rules of the specification, field by field: the string of the value or
  the empty string, the truth value or false, the integer or zero. For \<open>language\<close> and
  \<open>review\<close> the rule is stated for absent fields and for fields that hold a string.
\<close>

definition spec_str :: "'f pylib \<Rightarrow> (string \<times> 'f json) list \<Rightarrow> string \<Rightarrow> string" where
  "spec_str lib kvs k = (case map_of kvs k of None \<Rightarrow> [] | Some v \<Rightarrow> py_str lib v)"

definition spec_bool :: "'f pylib \<Rightarrow> (string \<times> 'f json) list \<Rightarrow> string \<Rightarrow> bool" where
  "spec_bool lib kvs k = (case map_of kvs k of None \<Rightarrow> False | Some v \<Rightarrow> py_bool lib v)"

definition spec_int :: "'f pylib \<Rightarrow> (string \<times> 'f json) list \<Rightarrow> string \<Rightarrow> int \<Rightarrow> bool" where
  "spec_int lib kvs k i =
     (case map_of kvs k of None \<Rightarrow> i = 0 | Some v \<Rightarrow> py_int lib v = Inr i)"

definition spec_text :: "(string \<times> 'f json) list \<Rightarrow> string \<Rightarrow> 'f json \<Rightarrow> bool" where
  "spec_text kvs k x =
     (case map_of kvs k of
        None \<Rightarrow> x = JStr []
      | Some (JStr s) \<Rightarrow> x = JStr s
      | Some _ \<Rightarrow> True)"

text \<open>The record without its author field.\<close>

definition without_author :: "(string \<times> 'f json) list \<Rightarrow> (string \<times> 'f json) list" where
  "without_author kvs = filter (\<lambda>kv. fst kv \<noteq> ''author'') kvs"

subsection \<open>Of the log of a run\<close>

text \<open>The cursors of the requests in a log, as set elements, in the order of the requests.\<close>

fun request_keys :: "'f event list \<Rightarrow> 'f key list" where
  "request_keys [] = []"
| "request_keys (Request r # es) =
     (case to_key (params_cursor r) of
        None \<Rightarrow> request_keys es
      | Some k \<Rightarrow> k # request_keys es)"
| "request_keys (Sleep d # es) = request_keys es"

text \<open>A log made of requests each followed by its delay.\<close>

fun paired :: "'f event list \<Rightarrow> bool" where
  "paired [] = True"
| "paired (Request r # Sleep d # es) = paired es"
| "paired _ = False"

text \<open>The same, with one more request allowed at the end.\<close>

fun paced :: "'f event list \<Rightarrow> bool" where
  "paced [] = True"
| "paced [Request r] = True"
| "paced (Request r # Sleep d # es) = paced es"
| "paced _ = False"

text \<open>Every delay of the log has a request right after it.\<close>

fun delay_before_request :: "'f event list \<Rightarrow> bool" where
  "delay_before_request [] = True"
| "delay_before_request (Request r # es) = delay_before_request es"
| "delay_before_request [Sleep d] = False"
| "delay_before_request (Sleep d # e # es) = (is_request e \<and> delay_before_request (e # es))"


text \<open>No two keys of a list are equal, the earlier one compared with the later one.\<close>

definition distinct_keys :: "'f pylib \<Rightarrow> 'f key list \<Rightarrow> bool" where
  "distinct_keys lib ks = (\<forall>j < length ks. \<forall>i < j. \<not> key_eq lib (ks ! i) (ks ! j))"

text \<open>The state that a pass leaves behind, however it ends.\<close>

fun state_of :: "'f step \<Rightarrow> 'f loop_state" where
  "state_of (Continue st) = st"
| "state_of (Break st) = st"
| "state_of (Raise st e) = st"

subsection \<open>Of the loop\<close>

text \<open>A finished loop ended in some pass, reached through passes that all continued.\<close>

definition last_pass ::
  "'f pylib \<Rightarrow> 'f transport \<Rightarrow> 'f config \<Rightarrow> 'f loop_state
     \<Rightarrow> 'f loop_state \<times> pyerror option \<Rightarrow> bool" where
  "last_pass lib tr cfg st out =
     (loop_body lib tr cfg st = Break (fst out) \<and> snd out = None \<or>
      (\<exists>e. loop_body lib tr cfg st = Raise (fst out) e \<and> snd out = Some e))"

text \<open>
  The seen cursors are the cursors of the requests issued, no two of them equal, and
  the log so far is made of requests each followed by its delay.
\<close>

definition log_inv :: "'f pylib \<Rightarrow> 'f loop_state \<Rightarrow> bool" where
  "log_inv lib st =
     (seen_cursors st = request_keys (events st) \<and>
      distinct_keys lib (seen_cursors st) \<and> paired (events st))"



definition log_of :: "('f event list \<times> (pyerror + 'f fetch_result)) option \<Rightarrow> 'f event list option" where
  "log_of r = map_option fst r"

subsection \<open>Runs to evaluate\<close>

text \<open>What \<open>review_of\<close> is normalized to.\<close>

definition sample_normalized :: "string \<Rightarrow> sample_float NormalizedReview" where
  "sample_normalized rid =
     \<lparr> recommendationid = rid, steamid = ''7656'', language = JStr ''english'',
       review = JStr [], voted_up = True, timestamp_created = 0, timestamp_updated = 0,
       author_num_games_owned = 0, author_num_reviews = 3, author_playtime_forever = 0,
       author_playtime_last_two_weeks = 0, author_playtime_at_review = 0, votes_up = 12,
       votes_funny = 0, weighted_vote_score = [], comment_count = 0,
       steam_purchase = False, received_for_free = False,
       written_during_early_access = False \<rparr>"

text \<open>
  The scenario of the specification: two records and the cursor \<^verbatim>\<open>AB==\<close>, then an
  empty page.
\<close>

definition two_pages :: "sample_float response list" where
  "two_pages =
     [page_response [review_of ''1'', review_of ''2''] (JStr ''AB==''),
      page_response [] (JStr ''AB=='')]"

text \<open>An endpoint whose first page hands back the cursor it was asked with.\<close>

definition stuck_pages :: "sample_float response list" where
  "stuck_pages =
     [page_response [review_of ''1'', review_of ''2''] (JStr ''*''),
      page_response [review_of ''3'', review_of ''4''] (JStr ''B'')]"


text \<open>Answers that are not pages.\<close>

definition server_error :: "sample_float response" where
  "server_error =
     \<lparr> status_code = 500, body_text = ''Internal Server Error'',
       body_json = Inl JSONDecodeError \<rparr>"

definition refusal :: "sample_float response" where
  "refusal =
     \<lparr> status_code = 200, body_text = [], body_json = Inr (JObj [(''success'', JInt 2)]) \<rparr>"

definition bare_success :: "sample_float response" where
  "bare_success =
     \<lparr> status_code = 200, body_text = [], body_json = Inr (JObj [(''success'', JInt 1)]) \<rparr>"


definition sample_now :: string where
  "sample_now = ''2026-01-01T00:00:00+00:00''"

text \<open>
  The state after a first pass that took the records \<^verbatim>\<open>1\<close> and \<^verbatim>\<open>2\<close> and the cursor
  \<open>c\<close> from its page.
\<close>

definition after_first_page :: "sample_float config \<Rightarrow> sample_float json \<Rightarrow> sample_float loop_state" where
  "after_first_page cfg c =
     \<lparr> cursor = c, seen_cursors = [KStr ''*''],
       normalized_reviews = [Normalized (sample_normalized ''1''),
                             Normalized (sample_normalized ''2'')],
       raw_reviews = (if include_raw cfg then [review_of ''1'', review_of ''2''] else []),
       events = [Request (request_for cfg (JStr ''*'')), Sleep (sleep_seconds cfg)] \<rparr>"

section \<open>The normalizer: proofs\<close>

lemma bind_simps: "bind (Inr x) f = f x" "bind (Inl e) f = Inl e"
  by (simp_all add: bind_def)

lemma returns_simps: "returns (Inr x) = True" "returns (Inl e) = False"
  by (simp_all add: returns_def)

lemma returns_bind: "returns (bind m f) = (returns m \<and> returns (f (projr m)))"
  by (cases m) (simp_all add: bind_def returns_def)

lemma bind_eq_Inr: "(bind m f = Inr y) = (returns m \<and> f (projr m) = Inr y)"
  by (cases m) (simp_all add: bind_def returns_def)

lemma returns_projr: "returns m \<Longrightarrow> m = Inr (projr m)"
  by (cases m) (simp_all add: returns_def)

lemma get_obj:
  "get_str lib (JObj kvs) k = Inr (py_str lib (dict_get kvs k (JStr [])))"
  "get_asis (JObj kvs) k = Inr (dict_get kvs k (JStr []))"
  "get_bool lib (JObj kvs) k = Inr (py_bool lib (dict_get kvs k (JBool False)))"
  "get_int lib (JObj kvs) k = py_int lib (dict_get kvs k (JInt 0))"
  by (simp_all add: get_str_def get_asis_def get_bool_def get_int_def py_get_def bind_def)

lemma int_ready_eq: "int_ready lib kvs k = returns (py_int lib (dict_get kvs k (JInt 0)))"
  by (simp add: int_ready_def dict_get_def py_int_def returns_def split: option.splits)

lemma author_of_eq: "py_or lib (dict_get kvs ''author'' (JObj [])) (JObj []) = author_of lib kvs"
  by (simp add: author_of_def py_or_def dict_get_def py_bool_def split: option.splits)

lemma get_str_nonobj: "\<forall>kvs. a \<noteq> JObj kvs \<Longrightarrow> get_str lib a k = Inl AttributeError"
  by (cases a) (simp_all add: get_str_def py_get_def bind_def)

text \<open>With a dict for the author, only the ten calls of \<^verbatim>\<open>int\<close> can still raise.\<close>

lemma normalize_obj_obj:
  "author_of lib kvs = JObj a \<Longrightarrow>
   normalize_review lib (JObj kvs) =
     bind (get_int lib (JObj kvs) ''timestamp_created'') (\<lambda>v6.
     bind (get_int lib (JObj kvs) ''timestamp_updated'') (\<lambda>v7.
     bind (get_int lib (JObj a) ''num_games_owned'') (\<lambda>v8.
     bind (get_int lib (JObj a) ''num_reviews'') (\<lambda>v9.
     bind (get_int lib (JObj a) ''playtime_forever'') (\<lambda>v10.
     bind (get_int lib (JObj a) ''playtime_last_two_weeks'') (\<lambda>v11.
     bind (get_int lib (JObj a) ''playtime_at_review'') (\<lambda>v12.
     bind (get_int lib (JObj kvs) ''votes_up'') (\<lambda>v13.
     bind (get_int lib (JObj kvs) ''votes_funny'') (\<lambda>v14.
     bind (get_int lib (JObj kvs) ''comment_count'') (\<lambda>v16.
     Inr \<lparr> recommendationid = py_str lib (dict_get kvs ''recommendationid'' (JStr [])),
           steamid = py_str lib (dict_get a ''steamid'' (JStr [])),
           language = dict_get kvs ''language'' (JStr []),
           review = dict_get kvs ''review'' (JStr []),
           voted_up = py_bool lib (dict_get kvs ''voted_up'' (JBool False)),
           timestamp_created = v6, timestamp_updated = v7,
           author_num_games_owned = v8, author_num_reviews = v9,
           author_playtime_forever = v10, author_playtime_last_two_weeks = v11,
           author_playtime_at_review = v12, votes_up = v13, votes_funny = v14,
           weighted_vote_score = py_str lib (dict_get kvs ''weighted_vote_score'' (JStr [])),
           comment_count = v16,
           steam_purchase = py_bool lib (dict_get kvs ''steam_purchase'' (JBool False)),
           received_for_free = py_bool lib (dict_get kvs ''received_for_free'' (JBool False)),
           written_during_early_access =
             py_bool lib (dict_get kvs ''written_during_early_access'' (JBool False)) \<rparr>
     ))))))))))"
  unfolding normalize_review_def
  by (simp add: py_get_def bind_simps author_of_eq get_obj(1,2,3) Let_def)

lemma normalize_nonobj_author:
  "\<forall>a. author_of lib kvs \<noteq> JObj a \<Longrightarrow> normalize_review lib (JObj kvs) = Inl AttributeError"
  unfolding normalize_review_def
  by (simp add: py_get_def bind_simps author_of_eq get_obj(1,2,3) get_str_nonobj Let_def)

lemma normalize_nonobj:
  "\<forall>kvs. r \<noteq> JObj kvs \<Longrightarrow> normalize_review lib r = Inl AttributeError"
  unfolding normalize_review_def
  by (cases r) (simp_all add: py_get_def bind_simps)

lemma returns_normalize_obj:
  assumes a: "author_of lib kvs = JObj a"
  shows "returns (normalize_review lib (JObj kvs)) =
           (list_all (int_ready lib kvs) top_int_fields \<and>
            list_all (int_ready lib a) author_int_fields)"
  unfolding normalize_obj_obj [OF a]
  by (simp add: returns_bind returns_simps get_obj(4) int_ready_eq top_int_fields_def
      author_int_fields_def conj_ac)

lemma returns_normalize: "returns (normalize_review lib r) = normalizable lib r"
proof (cases "\<exists>kvs. r = JObj kvs")
  case False
  then have "normalize_review lib r = Inl AttributeError"
    by (simp add: normalize_nonobj)
  moreover from False have "\<not> normalizable lib r"
    by (cases r) (simp_all add: normalizable_def)
  ultimately show ?thesis by (simp add: returns_simps)
next
  case True
  then obtain kvs where r: "r = JObj kvs" by blast
  show ?thesis
  proof (cases "\<exists>a. author_of lib kvs = JObj a")
    case False
    then have "normalize_review lib r = Inl AttributeError"
      by (simp add: r normalize_nonobj_author)
    moreover from False have "\<not> normalizable lib r"
      by (cases "author_of lib kvs") (simp_all add: normalizable_def r)
    ultimately show ?thesis by (simp add: returns_simps)
  next
    case True
    then obtain a where a: "author_of lib kvs = JObj a" by blast
    show ?thesis
      by (simp add: r returns_normalize_obj [OF a] normalizable_def a)
  qed
qed

lemma dict_get_cases:
  "dict_get kvs k d = (case map_of kvs k of None \<Rightarrow> d | Some v \<Rightarrow> v)"
  by (simp add: dict_get_def)

lemma spec_int_projr:
  "returns (py_int lib (dict_get kvs k (JInt 0))) \<Longrightarrow>
   spec_int lib kvs k (projr (py_int lib (dict_get kvs k (JInt 0))))"
  by (auto simp: spec_int_def dict_get_def py_int_def dest: returns_projr split: option.splits)

lemma spec_str_eq: "py_str lib (dict_get kvs k (JStr [])) = spec_str lib kvs k"
  by (simp add: spec_str_def dict_get_def py_str_def split: option.splits)

lemma spec_bool_eq: "py_bool lib (dict_get kvs k (JBool False)) = spec_bool lib kvs k"
  by (simp add: spec_bool_def dict_get_def py_bool_def split: option.splits)

lemma spec_text_get: "spec_text kvs k (dict_get kvs k (JStr []))"
  by (simp add: spec_text_def dict_get_def split: option.splits json.splits)

lemma map_of_without_author:
  "map_of (without_author kvs) k = (if k = ''author'' then None else map_of kvs k)"
  unfolding without_author_def
  by (induction kvs) auto

lemma dict_get_without_author:
  "k \<noteq> ''author'' \<Longrightarrow> dict_get (without_author kvs) k d = dict_get kvs k d"
  by (simp add: dict_get_def map_of_without_author)

lemma int_ready_without_author:
  "k \<noteq> ''author'' \<Longrightarrow> int_ready lib (without_author kvs) k = int_ready lib kvs k"
  by (simp add: int_ready_def map_of_without_author)

lemma author_of_without_author: "author_of lib (without_author kvs) = JObj []"
  by (simp add: author_of_def map_of_without_author)

text \<open>A falsy author is no author.\<close>

lemma normalize_falsy_author:
  assumes "map_of kvs ''author'' = Some v" and "\<not> py_bool lib v"
  shows "normalize_review lib (JObj kvs) = normalize_review lib (JObj (without_author kvs))"
proof -
  from assms have a: "author_of lib kvs = JObj []"
    by (simp add: author_of_def)
  show ?thesis
    unfolding normalize_obj_obj [OF a] normalize_obj_obj [OF author_of_without_author]
    by (simp add: get_obj(4) dict_get_without_author)
qed

text \<open>
  Claim C1, as amended. \<^verbatim>\<open>_normalize_review\<close> returns a \<open>NormalizedReview\<close> exactly on
  the normalizable records: dicts whose author is absent, falsy or a dict and whose
  integer fields are each absent or accepted by \<^verbatim>\<open>int\<close>. Missing fields and a missing
  author never make it raise; on every other value it raises.
\<close>

theorem normalize_returns_iff_normalizable:
  "returns (normalize_review lib r) = normalizable lib r"
  by (rule returns_normalize)

theorem normalize_returns_iff_normalizable_witness:
  "normalizable sample_lib (review_of ''1'') \<and>
   returns (normalize_review sample_lib (review_of ''1'')) \<and>
   normalizable sample_lib (JObj []) \<and>
   returns (normalize_review sample_lib (JObj []))"
proof -
  have 1: "normalizable sample_lib (review_of ''1'')"
    by (simp add: normalizable_def review_of_def author_of_def py_bool_def int_ready_def
        top_int_fields_def author_int_fields_def py_int_def returns_def sample_lib_def
        parse_int_def strip_def is_space_def is_digit_def digit_value_def)
  have 2: "normalizable sample_lib (JObj [])"
    by (simp add: normalizable_def author_of_def int_ready_def top_int_fields_def
        author_int_fields_def)
  from 1 2 show ?thesis
    using normalize_returns_iff_normalizable [of sample_lib "review_of ''1''"]
      normalize_returns_iff_normalizable [of sample_lib "JObj []"]
    by simp
qed

text \<open>
  Claim C1, as stated, fails: a field of the wrong shape is propagated as an exception.
  A \<^verbatim>\<open>votes_up\<close> of \<^verbatim>\<open>null\<close> raises \<open>TypeError\<close>, an author that is a non-empty string
  raises \<open>AttributeError\<close>.
\<close>

theorem normalize_raises_counterexample:
  "normalize_review sample_lib (JObj [(''votes_up'', JNull)]) = Inl TypeError \<and>
   normalize_review sample_lib (JObj [(''author'', JStr ''x'')]) = Inl AttributeError"
  by (simp add: normalize_review_def bind_def get_str_def get_int_def get_bool_def
      get_asis_def py_get_def dict_get_def py_or_def py_bool_def py_int_def py_str_def)

text \<open>
  Claim C2, as amended. When \<^verbatim>\<open>_normalize_review\<close> returns, the fields built with
  \<^verbatim>\<open>str\<close> hold the string of the source value when it is present and the empty string
  when it is absent, the integer fields hold what \<^verbatim>\<open>int\<close> makes of the source value
  when it is present and \<open>0\<close> when it is absent, the boolean fields hold its truth value
  or false, and \<open>language\<close> and \<open>review\<close> hold the source string or the empty string. The
  author fields are read from the author dict, which is empty when the record has no
  truthy author.
\<close>

theorem normalize_field_rules:
  assumes n: "normalize_review lib (JObj kvs) = Inr n"
  shows "\<exists>a. author_of lib kvs = JObj a \<and>
     recommendationid n = spec_str lib kvs ''recommendationid'' \<and>
     steamid n = spec_str lib a ''steamid'' \<and>
     spec_text kvs ''language'' (language n) \<and>
     spec_text kvs ''review'' (review n) \<and>
     voted_up n = spec_bool lib kvs ''voted_up'' \<and>
     spec_int lib kvs ''timestamp_created'' (timestamp_created n) \<and>
     spec_int lib kvs ''timestamp_updated'' (timestamp_updated n) \<and>
     spec_int lib a ''num_games_owned'' (author_num_games_owned n) \<and>
     spec_int lib a ''num_reviews'' (author_num_reviews n) \<and>
     spec_int lib a ''playtime_forever'' (author_playtime_forever n) \<and>
     spec_int lib a ''playtime_last_two_weeks'' (author_playtime_last_two_weeks n) \<and>
     spec_int lib a ''playtime_at_review'' (author_playtime_at_review n) \<and>
     spec_int lib kvs ''votes_up'' (votes_up n) \<and>
     spec_int lib kvs ''votes_funny'' (votes_funny n) \<and>
     weighted_vote_score n = spec_str lib kvs ''weighted_vote_score'' \<and>
     spec_int lib kvs ''comment_count'' (comment_count n) \<and>
     steam_purchase n = spec_bool lib kvs ''steam_purchase'' \<and>
     received_for_free n = spec_bool lib kvs ''received_for_free'' \<and>
     written_during_early_access n = spec_bool lib kvs ''written_during_early_access''"
proof -
  from n have "returns (normalize_review lib (JObj kvs))"
    by (simp add: returns_simps)
  then have "normalizable lib (JObj kvs)"
    by (simp add: returns_normalize)
  then obtain a where a: "author_of lib kvs = JObj a"
    by (cases "author_of lib kvs") (simp_all add: normalizable_def)
  from n show ?thesis
    unfolding normalize_obj_obj [OF a] bind_eq_Inr get_obj(4)
    by (intro exI [of _ a]) (auto simp: a spec_int_projr spec_str_eq spec_bool_eq spec_text_get)
qed

theorem normalize_field_rules_witness:
  "normalize_review sample_lib
     (JObj [(''recommendationid'', JInt 42), (''votes_up'', JStr '' 1_200 ''),
            (''steam_purchase'', JInt 1), (''author'', JObj [(''steamid'', JInt 7)])])
   = Inr \<lparr> recommendationid = ''42'', steamid = ''7'', language = JStr [],
           review = JStr [], voted_up = False, timestamp_created = 0,
           timestamp_updated = 0, author_num_games_owned = 0, author_num_reviews = 0,
           author_playtime_forever = 0, author_playtime_last_two_weeks = 0,
           author_playtime_at_review = 0, votes_up = 1200, votes_funny = 0,
           weighted_vote_score = [], comment_count = 0, steam_purchase = True,
           received_for_free = False, written_during_early_access = False \<rparr> \<and>
   spec_int sample_lib
     [(''recommendationid'', JInt 42), (''votes_up'', JStr '' 1_200 ''),
      (''steam_purchase'', JInt 1), (''author'', JObj [(''steamid'', JInt 7)])]
     ''votes_up'' 1200"
proof -
  let ?kvs = "[(''recommendationid'', JInt 42), (''votes_up'', JStr '' 1_200 ''),
               (''steam_purchase'', JInt 1), (''author'', JObj [(''steamid'', JInt 7)])]"
  let ?n = "\<lparr> recommendationid = ''42'', steamid = ''7'', language = JStr [],
           review = JStr [], voted_up = False, timestamp_created = 0,
           timestamp_updated = 0, author_num_games_owned = 0, author_num_reviews = 0,
           author_playtime_forever = 0, author_playtime_last_two_weeks = 0,
           author_playtime_at_review = 0, votes_up = 1200, votes_funny = 0,
           weighted_vote_score = [], comment_count = 0, steam_purchase = True,
           received_for_free = False, written_during_early_access = False \<rparr>"
  have h: "normalize_review sample_lib (JObj ?kvs) = Inr ?n"
    by (simp add: normalize_review_def bind_def get_str_def get_int_def get_bool_def
        get_asis_def py_get_def dict_get_def py_or_def py_bool_def py_int_def py_str_def
        sample_lib_def parse_int_def strip_def is_space_def is_digit_def digit_value_def
        str_int_def)
  from normalize_field_rules [OF h] have "spec_int sample_lib ?kvs ''votes_up'' (votes_up ?n)"
    by auto
  with h show ?thesis by simp
qed

text \<open>
  Claim C2, as stated, fails for an integer field that is present and not numeric:
  \<^verbatim>\<open>int\<close> raises and no record is returned, where the claim promises \<open>0\<close>.
\<close>

theorem normalize_non_numeric_counterexample:
  "normalize_review sample_lib (JObj [(''votes_up'', JStr ''abc'')])
   = Inl (ValueError (''invalid literal for int() with base 10: '' @ repr_str ''abc''))"
  by (simp add: normalize_review_def bind_def get_str_def get_int_def get_bool_def
      get_asis_def py_get_def dict_get_def py_or_def py_bool_def py_int_def py_str_def
      sample_lib_def parse_int_def strip_def is_space_def is_digit_def)

text \<open>
  Claim C9, as amended. A record whose author is present and falsy (\<^verbatim>\<open>null\<close>, an
  empty dict, ...) is normalized exactly as the record without the author field: the
  same record or the same exception. The author contributes no exception: the call
  returns exactly when the integer fields of the record itself are each absent or
  accepted by \<^verbatim>\<open>int\<close>; and the record returned has the defaults in the author fields,
  \<^verbatim>\<open>steamid\<close> and the five integers.
\<close>

theorem falsy_author_as_absent:
  assumes "map_of kvs ''author'' = Some v" and "\<not> py_bool lib v"
  shows "normalize_review lib (JObj kvs) = normalize_review lib (JObj (without_author kvs)) \<and>
    returns (normalize_review lib (JObj kvs)) = list_all (int_ready lib kvs) top_int_fields \<and>
    (\<forall>n. normalize_review lib (JObj kvs) = Inr n \<longrightarrow>
       steamid n = [] \<and> author_num_games_owned n = 0 \<and> author_num_reviews n = 0 \<and>
       author_playtime_forever n = 0 \<and> author_playtime_last_two_weeks n = 0 \<and>
       author_playtime_at_review n = 0)"
proof -
  from assms have a: "author_of lib kvs = JObj []"
    by (simp add: author_of_def)
  have 1: "normalize_review lib (JObj kvs) = normalize_review lib (JObj (without_author kvs))"
    using assms by (rule normalize_falsy_author)
  have 2: "returns (normalize_review lib (JObj kvs)) = list_all (int_ready lib kvs) top_int_fields"
    by (simp add: returns_normalize_obj [OF a] author_int_fields_def int_ready_def)
  have 3: "steamid n = [] \<and> author_num_games_owned n = 0 \<and> author_num_reviews n = 0 \<and>
       author_playtime_forever n = 0 \<and> author_playtime_last_two_weeks n = 0 \<and>
       author_playtime_at_review n = 0" if "normalize_review lib (JObj kvs) = Inr n" for n
    using that unfolding normalize_obj_obj [OF a] bind_eq_Inr get_obj(4)
    by (auto simp: dict_get_def py_int_def py_str_def)
  from 1 2 3 show ?thesis by blast
qed

theorem falsy_author_as_absent_witness:
  "map_of [(''author'', JNull), (''votes_up'', JInt 3)] ''author'' = Some (JNull :: sample_float json) \<and>
   \<not> py_bool sample_lib JNull \<and>
   normalize_review sample_lib (JObj [(''author'', JNull), (''votes_up'', JInt 3)])
     = normalize_review sample_lib (JObj [(''votes_up'', JInt 3)]) \<and>
   returns (normalize_review sample_lib (JObj [(''author'', JNull), (''votes_up'', JInt 3)]))"
proof -
  have h1: "map_of [(''author'', JNull), (''votes_up'', JInt 3)] ''author''
              = Some (JNull :: sample_float json)"
    by simp
  have h2: "\<not> py_bool sample_lib JNull"
    by (simp add: py_bool_def)
  let ?kvs = "[(''author'', JNull), (''votes_up'', JInt 3)] :: (string \<times> sample_float json) list"
  have w: "without_author ?kvs = [(''votes_up'', JInt 3)]"
    by (simp add: without_author_def)
  have r: "list_all (int_ready sample_lib ?kvs) top_int_fields"
    by (simp add: int_ready_def top_int_fields_def py_int_def returns_simps)
  from falsy_author_as_absent [OF h1 h2]
  have a: "normalize_review sample_lib (JObj ?kvs)
             = normalize_review sample_lib (JObj (without_author ?kvs))"
    and b: "returns (normalize_review sample_lib (JObj ?kvs))
             = list_all (int_ready sample_lib ?kvs) top_int_fields"
    by blast+
  from a have a': "normalize_review sample_lib (JObj ?kvs)
             = normalize_review sample_lib (JObj [(''votes_up'', JInt 3)])"
    unfolding w .
  from b r have b': "returns (normalize_review sample_lib (JObj ?kvs))"
    by blast
  from h1 h2 a' b' show ?thesis
    by blast
qed

text \<open>
  Claim C9, as stated, fails where it says that no exception is raised: with a
  \<^verbatim>\<open>null\<close> author the author is taken as the empty dict, and a \<^verbatim>\<open>votes_up\<close> of
  \<^verbatim>\<open>null\<close> in the same record still makes \<^verbatim>\<open>int\<close> raise \<open>TypeError\<close>.
\<close>

theorem falsy_author_still_raises_counterexample:
  "map_of [(''author'', JNull), (''votes_up'', JNull)] ''author''
     = Some (JNull :: sample_float json) \<and>
   \<not> py_bool sample_lib JNull \<and>
   normalize_review sample_lib (JObj [(''author'', JNull), (''votes_up'', JNull)])
     = Inl TypeError"
  by (simp add: normalize_review_def bind_def get_str_def get_int_def get_bool_def
      get_asis_def py_get_def dict_get_def py_or_def py_bool_def py_int_def py_str_def)

section \<open>The paginator: proofs\<close>

subsection \<open>Unfolding the loop\<close>

lemma fetch_loop_Continue:
  "loop_body lib tr cfg st = Continue st' \<Longrightarrow>
   fetch_loop lib tr cfg st = fetch_loop lib tr cfg st'"
  by (subst fetch_loop.simps) simp

lemma fetch_loop_Break:
  "loop_body lib tr cfg st = Break st' \<Longrightarrow> fetch_loop lib tr cfg st = Some (st', None)"
  by (subst fetch_loop.simps) simp

lemma fetch_loop_Raise:
  "loop_body lib tr cfg st = Raise st' e \<Longrightarrow> fetch_loop lib tr cfg st = Some (st', Some e)"
  by (subst fetch_loop.simps) simp

lemma after_passes_loop:
  "after_passes lib tr cfg n st = Some st' \<Longrightarrow>
   fetch_loop lib tr cfg st = fetch_loop lib tr cfg st'"
proof (induction n arbitrary: st)
  case 0
  then show ?case by simp
next
  case (Suc n)
  then obtain s where s: "loop_body lib tr cfg st = Continue s"
    and rest: "after_passes lib tr cfg n s = Some st'"
    by (auto split: step.splits)
  from Suc.IH [OF rest] fetch_loop_Continue [OF s] show ?case by simp
qed

lemma after_passes_Suc_end:
  "after_passes lib tr cfg n st = Some s \<Longrightarrow> loop_body lib tr cfg s = Continue s' \<Longrightarrow>
   after_passes lib tr cfg (Suc n) st = Some s'"
proof (induction n arbitrary: st)
  case 0
  then show ?case by simp
next
  case (Suc n)
  from Suc.prems(1) obtain t where t: "loop_body lib tr cfg st = Continue t"
    and rest: "after_passes lib tr cfg n t = Some s"
    by (auto split: step.splits)
  from Suc.IH [OF rest Suc.prems(2)] t show ?case by simp
qed

lemma fetch_loop_finished:
  assumes "fetch_loop lib tr cfg st0 = Some out"
  shows "\<exists>n st. after_passes lib tr cfg n st0 = Some st \<and> last_pass lib tr cfg st out"
proof (rule fetch_loop.raw_induct
    [where P = "\<lambda>lib tr cfg st0 out.
       \<exists>n st. after_passes lib tr cfg n st0 = Some st \<and> last_pass lib tr cfg st out",
     OF _ assms])
  fix loop :: "'a pylib \<Rightarrow> 'a transport \<Rightarrow> 'a config \<Rightarrow> 'a loop_state
                 \<Rightarrow> ('a loop_state \<times> pyerror option) option"
    and lib tr cfg st out
  assume IH: "\<And>lib tr cfg st out. loop lib tr cfg st = Some out \<Longrightarrow>
      \<exists>n s. after_passes lib tr cfg n st = Some s \<and> last_pass lib tr cfg s out"
    and eq: "(case loop_body lib tr cfg st of
                Continue st' \<Rightarrow> loop lib tr cfg st'
              | Break st' \<Rightarrow> Some (st', None)
              | Raise st' e \<Rightarrow> Some (st', Some e)) = Some out"
  show "\<exists>n s. after_passes lib tr cfg n st = Some s \<and> last_pass lib tr cfg s out"
  proof (cases "loop_body lib tr cfg st")
    case (Continue s)
    with eq have "loop lib tr cfg s = Some out" by simp
    from IH [OF this] obtain n t where
      t: "after_passes lib tr cfg n s = Some t" "last_pass lib tr cfg t out"
      by blast
    with Continue have "after_passes lib tr cfg (Suc n) st = Some t" by simp
    with t(2) show ?thesis by blast
  next
    case (Break s)
    with eq have "last_pass lib tr cfg st out"
      by (auto simp: last_pass_def)
    moreover have "after_passes lib tr cfg 0 st = Some st" by simp
    ultimately show ?thesis by blast
  next
    case (Raise s e)
    with eq have "last_pass lib tr cfg st out"
      by (auto simp: last_pass_def)
    moreover have "after_passes lib tr cfg 0 st = Some st" by simp
    ultimately show ?thesis by blast
  qed
qed

lemma fetch_all_valid:
  "1 \<le> num_per_page cfg \<and> num_per_page cfg \<le> 100 \<Longrightarrow>
   fetch_all_steam_reviews_for_app lib tr now cfg =
     map_option (finish now cfg) (fetch_loop lib tr cfg initial_state)"
  by (simp add: fetch_all_steam_reviews_for_app_def)

lemma fetch_all_Break:
  assumes "1 \<le> num_per_page cfg \<and> num_per_page cfg \<le> 100"
    and "after_passes lib tr cfg n initial_state = Some st"
    and "loop_body lib tr cfg st = Break st'"
  shows "fetch_all_steam_reviews_for_app lib tr now cfg =
           Some (events st', Inr (result_of now cfg st'))"
  using assms(1) after_passes_loop [OF assms(2)] fetch_loop_Break [OF assms(3)]
  by (simp add: fetch_all_valid finish_def)

lemma fetch_all_Raise:
  assumes "1 \<le> num_per_page cfg \<and> num_per_page cfg \<le> 100"
    and "after_passes lib tr cfg n initial_state = Some st"
    and "loop_body lib tr cfg st = Raise st' e"
  shows "fetch_all_steam_reviews_for_app lib tr now cfg = Some (events st', Inl e)"
  using assms(1) after_passes_loop [OF assms(2)] fetch_loop_Raise [OF assms(3)]
  by (simp add: fetch_all_valid finish_def)

text \<open>Every finished call: the bounds check failed, or the loop ended in some pass.\<close>

lemma fetch_all_finished:
  assumes "fetch_all_steam_reviews_for_app lib tr now cfg = Some (evs, res)"
  shows "evs = [] \<and> \<not> (1 \<le> num_per_page cfg \<and> num_per_page cfg \<le> 100) \<or>
     (\<exists>n st. after_passes lib tr cfg n initial_state = Some st \<and>
        evs = events (state_of (loop_body lib tr cfg st)) \<and>
        (\<forall>s. loop_body lib tr cfg st \<noteq> Continue s))"
proof (cases "1 \<le> num_per_page cfg \<and> num_per_page cfg \<le> 100")
  case False
  with assms show ?thesis
    by (simp add: fetch_all_steam_reviews_for_app_def)
next
  case True
  with assms obtain out where out: "fetch_loop lib tr cfg initial_state = Some out"
    and fin: "finish now cfg out = (evs, res)"
    by (auto simp: fetch_all_valid)
  from fetch_loop_finished [OF out] obtain n st where
    reach: "after_passes lib tr cfg n initial_state = Some st" and
    last: "last_pass lib tr cfg st out"
    by blast
  from last fin have "evs = events (state_of (loop_body lib tr cfg st))"
    by (cases out) (auto simp: last_pass_def finish_def)
  moreover from last have "\<forall>s. loop_body lib tr cfg st \<noteq> Continue s"
    by (auto simp: last_pass_def)
  ultimately show ?thesis using reach by blast
qed

subsection \<open>What one pass does\<close>

lemma py_bool_or_empty: "py_bool lib (py_or lib x (JList [])) = py_bool lib x"
  by (simp add: py_or_def py_bool_def)

lemma py_or_truthy: "py_bool lib x \<Longrightarrow> py_or lib x y = x"
  by (simp add: py_or_def)

lemma loop_body_guard:
  "to_key (cursor st) = Some k \<Longrightarrow> seen lib (seen_cursors st) k \<Longrightarrow>
   loop_body lib tr cfg st = Break st"
  by (simp add: loop_body_def)

lemma loop_body_unhashable:
  "to_key (cursor st) = None \<Longrightarrow> loop_body lib tr cfg st = Raise st TypeError"
  by (simp add: loop_body_def)

lemma loop_body_request:
  assumes "to_key (cursor st) = Some k" and "\<not> seen lib (seen_cursors st) k"
  shows "loop_body lib tr cfg st =
    (case fetch_page lib tr cfg (request_no st) (cursor st) of
       Inl e \<Rightarrow>
         Raise (st\<lparr>seen_cursors := seen_cursors st @ [k],
                   events := events st @ [Request (request_for cfg (cursor st))]\<rparr>) e
     | Inr data \<Rightarrow>
         take_page lib cfg
           (st\<lparr>seen_cursors := seen_cursors st @ [k],
               events := events st @ [Request (request_for cfg (cursor st))]\<rparr>) data)"
  using assms by (simp add: loop_body_def Let_def)

lemma issues_requestE:
  assumes "issues_request lib st"
  obtains k where "to_key (cursor st) = Some k" and "\<not> seen lib (seen_cursors st) k"
  using assms by (auto simp: issues_request_def split: option.splits)

lemma take_page_empty:
  "\<not> py_bool lib (dict_get data ''reviews'' JNull) \<Longrightarrow>
   take_page lib cfg st data = Break (st\<lparr>cursor := dict_get data ''cursor'' (cursor st)\<rparr>)"
  by (simp add: take_page_def py_bool_or_empty Let_def)

lemma take_page_nonempty:
  assumes "py_bool lib (dict_get data ''reviews'' JNull)"
    and "py_iter (dict_get data ''reviews'' JNull) = Inr items"
    and "(if normalize' cfg then normalize_all lib items else Inr (map AsIs items)) = Inr outs"
  shows "take_page lib cfg st data =
    (if cap_reached cfg (normalized_reviews st @ outs) then
       Break (st\<lparr>cursor := dict_get data ''cursor'' (cursor st),
                 normalized_reviews :=
                   slice_to (normalized_reviews st @ outs) (the (max_reviews cfg)),
                 raw_reviews :=
                   (if include_raw cfg
                    then slice_to (raw_reviews st @ items) (the (max_reviews cfg))
                    else raw_reviews st)\<rparr>)
     else
       (case sleep_error lib (sleep_seconds cfg) of
          Some e \<Rightarrow>
            Raise (st\<lparr>cursor := dict_get data ''cursor'' (cursor st),
                      normalized_reviews := normalized_reviews st @ outs,
                      raw_reviews := (if include_raw cfg then raw_reviews st @ items
                                      else raw_reviews st)\<rparr>) e
        | None \<Rightarrow>
            Continue (st\<lparr>cursor := dict_get data ''cursor'' (cursor st),
                         normalized_reviews := normalized_reviews st @ outs,
                         raw_reviews := (if include_raw cfg then raw_reviews st @ items
                                         else raw_reviews st),
                         events := events st @ [Sleep (sleep_seconds cfg)]\<rparr>)))"
  using assms(1,2) assms(3)
  by (simp add: take_page_def py_bool_or_empty py_or_truthy Let_def)

text \<open>The log and the set of seen cursors after a pass, by the way the pass ends.\<close>

lemma take_page_log:
  "events (state_of (take_page lib cfg st data)) = events st \<and>
     (\<forall>s. take_page lib cfg st data \<noteq> Continue s) \<or>
   events (state_of (take_page lib cfg st data)) = events st @ [Sleep (sleep_seconds cfg)] \<and>
     (\<exists>s. take_page lib cfg st data = Continue s)"
  by (simp add: take_page_def Let_def split: sum.splits option.splits)

lemma take_page_seen:
  "seen_cursors (state_of (take_page lib cfg st data)) = seen_cursors st"
  by (simp add: take_page_def Let_def split: sum.splits option.splits)

lemma loop_body_effect:
  "seen_cursors (state_of (loop_body lib tr cfg st)) = seen_cursors st \<and>
     events (state_of (loop_body lib tr cfg st)) = events st \<and>
     \<not> issues_request lib st \<and>
     (\<forall>s. loop_body lib tr cfg st \<noteq> Continue s) \<or>
   (\<exists>k. to_key (cursor st) = Some k \<and> \<not> seen lib (seen_cursors st) k \<and>
      seen_cursors (state_of (loop_body lib tr cfg st)) = seen_cursors st @ [k] \<and>
      (events (state_of (loop_body lib tr cfg st))
         = events st @ [Request (request_for cfg (cursor st))] \<and>
         (\<forall>s. loop_body lib tr cfg st \<noteq> Continue s) \<or>
       events (state_of (loop_body lib tr cfg st))
         = events st @ [Request (request_for cfg (cursor st)), Sleep (sleep_seconds cfg)] \<and>
         (\<exists>s. loop_body lib tr cfg st = Continue s)))"
proof (cases "to_key (cursor st)")
  case None
  then show ?thesis
    by (simp add: loop_body_unhashable issues_request_def)
next
  case (Some k)
  show ?thesis
  proof (cases "seen lib (seen_cursors st) k")
    case True
    with Some show ?thesis
      by (simp add: loop_body_guard issues_request_def)
  next
    case False
    let ?st = "st\<lparr>seen_cursors := seen_cursors st @ [k],
                   events := events st @ [Request (request_for cfg (cursor st))]\<rparr>"
    show ?thesis
    proof (cases "fetch_page lib tr cfg (request_no st) (cursor st)")
      case (Inl e)
      with Some False show ?thesis
        by (simp add: loop_body_request)
    next
      case (Inr data)
      with Some False have eq: "loop_body lib tr cfg st = take_page lib cfg ?st data"
        by (simp add: loop_body_request)
      from take_page_log [of lib cfg ?st data] take_page_seen [of lib cfg ?st data]
      show ?thesis
        unfolding eq using Some False by auto
    qed
  qed
qed

subsection \<open>What holds at the top of every pass\<close>

lemma after_passes_invariant:
  assumes "after_passes lib tr cfg n st0 = Some st"
    and "I st0"
    and "\<And>s s'. I s \<Longrightarrow> loop_body lib tr cfg s = Continue s' \<Longrightarrow> I s'"
  shows "I st"
  using assms(1,2)
proof (induction n arbitrary: st0)
  case 0
  then show ?case by simp
next
  case (Suc n)
  from Suc.prems(1) obtain s where s: "loop_body lib tr cfg st0 = Continue s"
    and rest: "after_passes lib tr cfg n s = Some st"
    by (auto split: step.splits)
  from assms(3) [OF Suc.prems(2) s] have "I s" .
  from Suc.IH [OF rest this] show ?case .
qed

lemma request_keys_append: "request_keys (xs @ ys) = request_keys xs @ request_keys ys"
  by (induction xs rule: request_keys.induct) (simp_all split: option.splits)

lemma params_cursor_request_for: "params_cursor (request_for cfg c) = c"
  by (simp add: request_for_def)

lemma request_keys_request:
  "to_key c = Some k \<Longrightarrow> request_keys [Request (request_for cfg c)] = [k]"
  by (simp add: params_cursor_request_for)

lemma seen_iff: "seen lib ks k = (\<exists>i < length ks. key_eq lib (ks ! i) k)"
  unfolding seen_def list_ex_iff by (metis in_set_conv_nth)

lemma distinct_keys_snoc:
  "distinct_keys lib (ks @ [k]) = (distinct_keys lib ks \<and> \<not> seen lib ks k)"
proof -
  have "distinct_keys lib (ks @ [k]) =
      ((\<forall>j < length ks. \<forall>i < j. \<not> key_eq lib ((ks @ [k]) ! i) ((ks @ [k]) ! j)) \<and>
       (\<forall>i < length ks. \<not> key_eq lib ((ks @ [k]) ! i) ((ks @ [k]) ! length ks)))"
    by (auto simp: distinct_keys_def less_Suc_eq)
  also have "\<dots> = (distinct_keys lib ks \<and> \<not> seen lib ks k)"
    by (simp add: distinct_keys_def seen_iff nth_append)
  finally show ?thesis .
qed

lemma paired_snoc: "paired evs \<Longrightarrow> paired (evs @ [Request r, Sleep d])"
  by (induction evs rule: paired.induct) simp_all

lemma paired_paced_snoc: "paired evs \<Longrightarrow> paced (evs @ [Request r])"
  by (induction evs rule: paired.induct) simp_all

lemma paired_paced: "paired evs \<Longrightarrow> paced evs"
  by (induction evs rule: paired.induct) simp_all

lemma log_inv_initial: "log_inv lib initial_state"
  by (simp add: log_inv_def initial_state_def distinct_keys_def)

lemma log_inv_pass:
  assumes "log_inv lib st"
  shows "seen_cursors (state_of (loop_body lib tr cfg st))
           = request_keys (events (state_of (loop_body lib tr cfg st))) \<and>
         distinct_keys lib (seen_cursors (state_of (loop_body lib tr cfg st))) \<and>
         paced (events (state_of (loop_body lib tr cfg st))) \<and>
         (\<forall>s. loop_body lib tr cfg st = Continue s \<longrightarrow> paired (events s))"
proof -
  let ?s = "state_of (loop_body lib tr cfg st)"
  from assms have sk: "seen_cursors st = request_keys (events st)"
    and dk: "distinct_keys lib (seen_cursors st)" and pd: "paired (events st)"
    unfolding log_inv_def by blast+
  from loop_body_effect [of lib tr cfg st] consider
    (same) "seen_cursors ?s = seen_cursors st" "events ?s = events st"
      "\<forall>s. loop_body lib tr cfg st \<noteq> Continue s"
  | (request) k where "to_key (cursor st) = Some k" "\<not> seen lib (seen_cursors st) k"
      "seen_cursors ?s = seen_cursors st @ [k]"
      "events ?s = events st @ [Request (request_for cfg (cursor st))]"
      "\<forall>s. loop_body lib tr cfg st \<noteq> Continue s"
  | (delay) k where "to_key (cursor st) = Some k" "\<not> seen lib (seen_cursors st) k"
      "seen_cursors ?s = seen_cursors st @ [k]"
      "events ?s = events st @ [Request (request_for cfg (cursor st)), Sleep (sleep_seconds cfg)]"
    by blast
  then show ?thesis
  proof cases
    case same
    with sk dk pd show ?thesis
      by (simp add: paired_paced)
  next
    case request
    have "request_keys (events ?s) = seen_cursors st @ [k]"
      by (simp add: request(4) request_keys_append params_cursor_request_for request(1) sk)
    with request dk pd show ?thesis
      by (simp add: distinct_keys_snoc paired_paced_snoc)
  next
    case delay
    have ev: "events ?s = (events st @ [Request (request_for cfg (cursor st))])
                @ [Sleep (sleep_seconds cfg)]"
      by (simp add: delay(4))
    have "request_keys (events ?s) = seen_cursors st @ [k]"
      unfolding ev request_keys_append
      by (simp add: params_cursor_request_for delay(1) sk)
    moreover have "paired (events ?s)"
      unfolding delay(4) using pd by (rule paired_snoc)
    ultimately show ?thesis
      using delay dk by (auto simp: distinct_keys_snoc paired_paced)
  qed
qed

lemma log_inv_Continue:
  assumes "log_inv lib s" and "loop_body lib tr cfg s = Continue s'"
  shows "log_inv lib s'"
proof -
  from log_inv_pass [OF assms(1), of tr cfg] assms(2)
  have "seen_cursors s' = request_keys (events s')" "distinct_keys lib (seen_cursors s')"
    "paired (events s')"
    by auto
  then show ?thesis
    unfolding log_inv_def by blast
qed

lemma log_inv_reach:
  assumes "after_passes lib tr cfg n initial_state = Some st"
  shows "log_inv lib st"
  by (rule after_passes_invariant [OF assms, where I = "log_inv lib"])
     (simp_all add: log_inv_initial log_inv_Continue)

lemma length_normalize_all:
  "normalize_all lib items = Inr outs \<Longrightarrow> length outs = length items"
proof (induction items arbitrary: outs)
  case Nil
  then show ?case by simp
next
  case (Cons r rs)
  then show ?case
    by (auto simp: bind_eq_Inr dest: returns_projr)
qed

lemma length_outs:
  "(if normalize' cfg then normalize_all lib items else Inr (map AsIs items)) = Inr outs \<Longrightarrow>
   length outs = length items"
  by (auto simp: length_normalize_all split: if_splits)

lemma py_iter_truthy:
  "py_bool lib x \<Longrightarrow> py_iter x = Inr items \<Longrightarrow> items \<noteq> []"
  by (cases x) (auto simp: py_bool_def py_iter_def)

text \<open>A pass that goes on has appended a page that did not reach the cap.\<close>

lemma loop_body_Continue:
  assumes "loop_body lib tr cfg st = Continue s'"
  shows "\<exists>data items outs.
     fetch_page lib tr cfg (request_no st) (cursor st) = Inr data \<and>
     py_iter (dict_get data ''reviews'' JNull) = Inr items \<and> items \<noteq> [] \<and>
     length outs = length items \<and>
     normalized_reviews s' = normalized_reviews st @ outs \<and>
     raw_reviews s' = (if include_raw cfg then raw_reviews st @ items else raw_reviews st) \<and>
     cursor s' = dict_get data ''cursor'' (cursor st) \<and>
     \<not> cap_reached cfg (normalized_reviews s') \<and>
     sleep_error lib (sleep_seconds cfg) = None"
proof -
  from assms obtain k where k: "to_key (cursor st) = Some k" "\<not> seen lib (seen_cursors st) k"
    by (auto simp: loop_body_def split: option.splits if_splits)
  let ?st = "st\<lparr>seen_cursors := seen_cursors st @ [k],
                 events := events st @ [Request (request_for cfg (cursor st))]\<rparr>"
  from assms k obtain data where
    data: "fetch_page lib tr cfg (request_no st) (cursor st) = Inr data"
    and tp: "take_page lib cfg ?st data = Continue s'"
    by (auto simp: loop_body_request split: sum.splits)
  from tp have truthy: "py_bool lib (dict_get data ''reviews'' JNull)"
    by (auto simp: take_page_def py_bool_or_empty Let_def split: if_splits)
  from tp truthy obtain items where
    items: "py_iter (dict_get data ''reviews'' JNull) = Inr items"
    by (auto simp: take_page_def py_bool_or_empty py_or_truthy Let_def split: sum.splits)
  from tp truthy items obtain outs where
    outs: "(if normalize' cfg then normalize_all lib items else Inr (map AsIs items)) = Inr outs"
    by (cases "if normalize' cfg then normalize_all lib items else Inr (map AsIs items)")
       (auto simp: take_page_def py_bool_or_empty py_or_truthy Let_def)
  from tp have
    "normalized_reviews s' = normalized_reviews st @ outs \<and>
     raw_reviews s' = (if include_raw cfg then raw_reviews st @ items else raw_reviews st) \<and>
     cursor s' = dict_get data ''cursor'' (cursor st) \<and>
     \<not> cap_reached cfg (normalized_reviews s') \<and>
     sleep_error lib (sleep_seconds cfg) = None"
    unfolding take_page_nonempty [OF truthy items outs]
    by (auto split: if_splits option.splits)
  with data items py_iter_truthy [OF truthy items] length_outs [OF outs]
  show ?thesis by blast
qed


subsection \<open>The sample runs, pass by pass\<close>

lemma normalize_sample: "normalize_review sample_lib (review_of rid) = Inr (sample_normalized rid)"
  by (simp add: normalize_review_def bind_def get_str_def get_int_def get_bool_def
      get_asis_def py_get_def dict_get_def py_or_def py_bool_def py_int_def py_str_def
      sample_lib_def parse_int_def strip_def is_space_def is_digit_def digit_value_def
      review_of_def sample_normalized_def)

lemma normalize_all_two:
  "normalize_all sample_lib [review_of a, review_of b]
     = Inr [Normalized (sample_normalized a), Normalized (sample_normalized b)]"
  by (simp add: normalize_sample bind_simps)

lemma fetch_page_serve:
  assumes "i < length rs" and "rs ! i = page_response recs c"
  shows "fetch_page lib (serve rs) cfg i cur
           = Inr [(''success'', JInt 1), (''cursor'', c), (''reviews'', JList recs)]"
  using assms
  by (simp add: fetch_page_def serve_def page_response_def eq_int_def dict_get_def)

lemma initial_state_simps:
  "cursor initial_state = JStr ''*''" "seen_cursors initial_state = []"
  "normalized_reviews initial_state = []" "raw_reviews initial_state = []"
  "events initial_state = []" "request_no initial_state = 0"
  by (simp_all add: initial_state_def request_no_def)

lemma issues_request_initial: "issues_request lib initial_state"
  by (simp add: issues_request_def initial_state_simps to_key_def seen_def)

lemma after_first_page_simps:
  "cursor (after_first_page cfg c) = c"
  "seen_cursors (after_first_page cfg c) = [KStr ''*'']"
  "normalized_reviews (after_first_page cfg c)
     = [Normalized (sample_normalized ''1''), Normalized (sample_normalized ''2'')]"
  "raw_reviews (after_first_page cfg c)
     = (if include_raw cfg then [review_of ''1'', review_of ''2''] else [])"
  "events (after_first_page cfg c)
     = [Request (request_for cfg (JStr ''*'')), Sleep (sleep_seconds cfg)]"
  "request_no (after_first_page cfg c) = 1"
  by (simp_all add: after_first_page_def request_no_def)

lemma first_pass:
  assumes rs: "0 < length rs" "rs ! 0 = page_response [review_of ''1'', review_of ''2''] c"
    and cfg: "normalize' cfg" "sleep_error sample_lib (sleep_seconds cfg) = None"
      "\<not> cap_reached cfg [Normalized (sample_normalized ''1''),
                            Normalized (sample_normalized ''2'')]"
  shows "loop_body sample_lib (serve rs) cfg initial_state = Continue (after_first_page cfg c)"
proof -
  let ?data = "[(''success'', JInt 1), (''cursor'', c),
                (''reviews'', JList [review_of ''1'', review_of ''2''])]"
  have k: "to_key (cursor initial_state) = Some (KStr ''*'')"
    "\<not> seen sample_lib (seen_cursors initial_state) (KStr ''*'')"
    by (simp_all add: initial_state_simps to_key_def seen_def)
  have page: "fetch_page sample_lib (serve rs) cfg (request_no initial_state)
                (cursor initial_state) = Inr ?data"
    unfolding initial_state_simps using rs by (rule fetch_page_serve)
  have truthy: "py_bool sample_lib (dict_get ?data ''reviews'' JNull)"
    by (simp add: dict_get_def py_bool_def)
  have items: "py_iter (dict_get ?data ''reviews'' JNull)
                 = Inr [review_of ''1'', review_of ''2'']"
    by (simp add: dict_get_def py_iter_def)
  have outs: "(if normalize' cfg then normalize_all sample_lib [review_of ''1'', review_of ''2'']
               else Inr (map AsIs [review_of ''1'', review_of ''2'']))
      = Inr [Normalized (sample_normalized ''1''), Normalized (sample_normalized ''2'')]"
    using cfg(1) by (simp add: normalize_sample bind_simps)
  show ?thesis
    unfolding loop_body_request [OF k] page
    using cfg(2,3)
    by (simp add: take_page_nonempty [OF truthy items outs] initial_state_simps
        after_first_page_def initial_state_def dict_get_def)
qed

lemma sample_config_simps:
  "num_per_page sample_config = 100" "normalize' sample_config"
  "\<not> include_raw sample_config" "max_reviews sample_config = None"
  "sleep_seconds sample_config = F_0_25" "appid sample_config = 413150"
  by (simp_all add: sample_config_def)


lemma sleep_quarter: "sleep_error sample_lib F_0_25 = None"
  by (simp add: sample_lib_def)

lemma first_pass_sample:
  assumes "0 < length rs" "rs ! 0 = page_response [review_of ''1'', review_of ''2''] c"
  shows "loop_body sample_lib (serve rs) sample_config initial_state
           = Continue (after_first_page sample_config c)"
  using assms
  by (rule first_pass) (simp_all add: sample_config_simps sleep_quarter cap_reached_def)


lemma issues_request_after_first:
  "c = JStr s \<Longrightarrow> s \<noteq> ''*'' \<Longrightarrow> issues_request sample_lib (after_first_page cfg c)"
  by (simp add: issues_request_def after_first_page_simps to_key_def seen_def)

subsection \<open>The claims about the paginator\<close>

lemma empty_page_result:
  assumes valid: "1 \<le> num_per_page cfg \<and> num_per_page cfg \<le> 100"
    and reach: "after_passes lib tr cfg n initial_state = Some st"
    and guard: "issues_request lib st"
    and page: "fetch_page lib tr cfg (request_no st) (cursor st) = Inr data"
    and empty: "\<not> py_bool lib (dict_get data ''reviews'' JNull)"
  shows "fetch_all_steam_reviews_for_app lib tr now cfg =
     Some (events st @ [Request (request_for cfg (cursor st))],
           Inr ((result_of now cfg st)\<lparr>last_cursor := dict_get data ''cursor'' (cursor st)\<rparr>))"
proof -
  from guard obtain k where k: "to_key (cursor st) = Some k" "\<not> seen lib (seen_cursors st) k"
    by (rule issues_requestE)
  let ?st = "st\<lparr>seen_cursors := seen_cursors st @ [k],
                 events := events st @ [Request (request_for cfg (cursor st))]\<rparr>"
  have "loop_body lib tr cfg st = Break (?st\<lparr>cursor := dict_get data ''cursor'' (cursor ?st)\<rparr>)"
    by (simp add: loop_body_request [OF k] page take_page_empty [OF empty])
  from fetch_all_Break [OF valid reach this] show ?thesis
    by (simp add: result_of_def)
qed

text \<open>
  Claim C6. A page size outside 1..100 ends the call with the \<open>ValueError\<close> of the
  bounds check and an empty log: no request has been issued, whatever the transport.
\<close>

theorem page_size_checked_before_any_request:
  assumes "\<not> (1 \<le> num_per_page cfg \<and> num_per_page cfg \<le> 100)"
  shows "fetch_all_steam_reviews_for_app lib tr now cfg =
           Some ([], Inl (ValueError ''num_per_page must be between 1 and 100''))"
  using assms by (simp add: fetch_all_steam_reviews_for_app_def)

theorem page_size_checked_before_any_request_witness:
  "\<not> (1 \<le> num_per_page (sample_config\<lparr>num_per_page := 0\<rparr>) \<and>
      num_per_page (sample_config\<lparr>num_per_page := 0\<rparr>) \<le> 100) \<and>
   fetch_all_steam_reviews_for_app sample_lib (serve two_pages) sample_now
     (sample_config\<lparr>num_per_page := 0\<rparr>)
     = Some ([], Inl (ValueError ''num_per_page must be between 1 and 100'')) \<and>
   \<not> (1 \<le> num_per_page (sample_config\<lparr>num_per_page := 101\<rparr>) \<and>
      num_per_page (sample_config\<lparr>num_per_page := 101\<rparr>) \<le> 100) \<and>
   fetch_all_steam_reviews_for_app sample_lib (serve two_pages) sample_now
     (sample_config\<lparr>num_per_page := 101\<rparr>)
     = Some ([], Inl (ValueError ''num_per_page must be between 1 and 100''))"
proof -
  have 0: "\<not> (1 \<le> num_per_page (sample_config\<lparr>num_per_page := 0\<rparr>) \<and>
      num_per_page (sample_config\<lparr>num_per_page := 0\<rparr>) \<le> 100)"
    by simp
  have 1: "\<not> (1 \<le> num_per_page (sample_config\<lparr>num_per_page := 101\<rparr>) \<and>
      num_per_page (sample_config\<lparr>num_per_page := 101\<rparr>) \<le> 100)"
    by simp
  from page_size_checked_before_any_request [OF 0, of sample_lib "serve two_pages" sample_now]
    page_size_checked_before_any_request [OF 1, of sample_lib "serve two_pages" sample_now]
    0 1
  show ?thesis by blast
qed

text \<open>
  Claim C7. When a pass issues its request and the answer has a status other than
  200, the call ends with \<open>SteamReviewsError\<close> whose message names the status and the
  first 300 characters of the body; when the status is 200 and the payload is a dict
  whose success indicator is not \<open>1\<close>, it ends with \<open>SteamReviewsError\<close> whose message
  holds the indicator and the payload as \<^verbatim>\<open>str\<close> prints them. The caller gets the
  exception and no result.
\<close>

theorem failed_page_fails_the_call:
  assumes valid: "1 \<le> num_per_page cfg \<and> num_per_page cfg \<le> 100"
    and reach: "after_passes lib tr cfg n initial_state = Some st"
    and guard: "issues_request lib st"
    and resp: "tr (request_no st) (request_for cfg (cursor st)) = Inr resp"
  shows "(status_code resp \<noteq> 200 \<longrightarrow>
       fetch_all_steam_reviews_for_app lib tr now cfg =
         Some (events st @ [Request (request_for cfg (cursor st))],
               Inl (SteamReviewsError
                 (''HTTP '' @ str_int (status_code resp) @ '': ''
                    @ take 300 (body_text resp))))) \<and>
     (\<forall>data. status_code resp = 200 \<and> body_json resp = Inr (JObj data) \<and>
        \<not> eq_int lib (dict_get data ''success'' JNull) 1 \<longrightarrow>
       fetch_all_steam_reviews_for_app lib tr now cfg =
         Some (events st @ [Request (request_for cfg (cursor st))],
               Inl (SteamReviewsError
                 (''Steam returned success=''
                    @ py_str lib (dict_get data ''success'' JNull)
                    @ '': '' @ py_str lib (JObj data)))))"
proof -
  from guard obtain k where k: "to_key (cursor st) = Some k" "\<not> seen lib (seen_cursors st) k"
    by (rule issues_requestE)
  let ?st = "st\<lparr>seen_cursors := seen_cursors st @ [k],
                 events := events st @ [Request (request_for cfg (cursor st))]\<rparr>"
  have raise: "fetch_all_steam_reviews_for_app lib tr now cfg =
      Some (events st @ [Request (request_for cfg (cursor st))], Inl e)"
    if "fetch_page lib tr cfg (request_no st) (cursor st) = Inl e" for e
  proof -
    from that have "loop_body lib tr cfg st = Raise ?st e"
      by (simp add: loop_body_request [OF k])
    from fetch_all_Raise [OF valid reach this] show ?thesis by simp
  qed
  have 1: "fetch_page lib tr cfg (request_no st) (cursor st) =
      Inl (SteamReviewsError
        (''HTTP '' @ str_int (status_code resp) @ '': '' @ take 300 (body_text resp)))"
    if "status_code resp \<noteq> 200"
    using that resp by (simp add: fetch_page_def)
  have 2: "fetch_page lib tr cfg (request_no st) (cursor st) =
      Inl (SteamReviewsError
        (''Steam returned success='' @ py_str lib (dict_get data ''success'' JNull)
           @ '': '' @ py_str lib (JObj data)))"
    if "status_code resp = 200" "body_json resp = Inr (JObj data)"
      "\<not> eq_int lib (dict_get data ''success'' JNull) 1" for data
    using that resp by (simp add: fetch_page_def)
  from raise 1 2 show ?thesis by blast
qed

theorem failed_page_fails_the_call_witness:
  "fetch_all_steam_reviews_for_app sample_lib (serve [server_error]) sample_now sample_config
     = Some ([Request (request_for sample_config (JStr ''*''))],
             Inl (SteamReviewsError ''HTTP 500: Internal Server Error'')) \<and>
   fetch_all_steam_reviews_for_app sample_lib (serve [refusal]) sample_now sample_config
     = Some ([Request (request_for sample_config (JStr ''*''))],
             Inl (SteamReviewsError
               (''Steam returned success=2: {'' @ [CHR 0x27] @ ''success'' @ [CHR 0x27]
                  @ '': 2}'')))"
proof -
  have valid: "1 \<le> num_per_page sample_config \<and> num_per_page sample_config \<le> 100"
    by (simp add: sample_config_simps)
  have reach1: "after_passes sample_lib (serve [server_error]) sample_config 0 initial_state
      = Some initial_state"
    by simp
  have reach2: "after_passes sample_lib (serve [refusal]) sample_config 0 initial_state
      = Some initial_state"
    by simp
  have resp1: "serve [server_error] (request_no initial_state)
      (request_for sample_config (cursor initial_state)) = Inr server_error"
    by (simp add: serve_def initial_state_simps)
  have resp2: "serve [refusal] (request_no initial_state)
      (request_for sample_config (cursor initial_state)) = Inr refusal"
    by (simp add: serve_def initial_state_simps)
  have bad: "\<not> eq_int sample_lib (dict_get [(''success'', JInt 2)] ''success'' JNull) 1"
    by (simp add: eq_int_def dict_get_def)
  have shown: "py_str sample_lib (JInt 2) = ''2''"
    "py_str sample_lib (JObj [(''success'', JInt 2)])
       = ''{'' @ [CHR 0x27] @ ''success'' @ [CHR 0x27] @ '': 2}''"
    by (simp_all add: py_str_def str_int_def sample_lib_def repr_str_def repr_char_def Let_def)
  from failed_page_fails_the_call [OF valid reach1 issues_request_initial resp1, of sample_now]
  have 1: "fetch_all_steam_reviews_for_app sample_lib (serve [server_error]) sample_now
      sample_config
     = Some ([Request (request_for sample_config (JStr ''*''))],
             Inl (SteamReviewsError ''HTTP 500: Internal Server Error''))"
    by (simp add: server_error_def initial_state_simps str_int_def)
  from failed_page_fails_the_call [OF valid reach2 issues_request_initial resp2, of sample_now]
    bad
  have 2: "fetch_all_steam_reviews_for_app sample_lib (serve [refusal]) sample_now sample_config
     = Some ([Request (request_for sample_config (JStr ''*''))],
             Inl (SteamReviewsError
               (''Steam returned success=2: {'' @ [CHR 0x27] @ ''success'' @ [CHR 0x27]
                  @ '': 2}'')))"
    by (simp add: refusal_def initial_state_simps dict_get_def shown)
  from 1 2 show ?thesis by blast
qed

text \<open>
  Claim C5. When a pass fetches a successful page whose record list is empty, the call
  ends there: the log stops at that request, the result holds the records collected
  before and nothing of this page, and its final cursor is the cursor of the page.
\<close>

theorem empty_page_ends_the_run:
  assumes "1 \<le> num_per_page cfg \<and> num_per_page cfg \<le> 100"
    and "after_passes lib tr cfg n initial_state = Some st"
    and "issues_request lib st"
    and "fetch_page lib tr cfg (request_no st) (cursor st) = Inr data"
    and "map_of data ''reviews'' = Some (JList [])"
    and "map_of data ''cursor'' = Some c"
  shows "fetch_all_steam_reviews_for_app lib tr now cfg =
     Some (events st @ [Request (request_for cfg (cursor st))],
           Inr \<lparr> res_appid = appid cfg, fetched_at_utc = now, request_params = query_of cfg,
                 count = length (normalized_reviews st), last_cursor = c,
                 reviews = normalized_reviews st,
                 res_raw_reviews = (if include_raw cfg then Some (raw_reviews st) else None) \<rparr>)"
proof -
  from assms(5) have "\<not> py_bool lib (dict_get data ''reviews'' JNull)"
    by (simp add: dict_get_def py_bool_def)
  from empty_page_result [OF assms(1-4) this] assms(6) show ?thesis
    by (simp add: result_of_def dict_get_def)
qed

theorem empty_page_ends_the_run_witness:
  "after_passes sample_lib (serve two_pages) sample_config (Suc 0) initial_state
     = Some (after_first_page sample_config (JStr ''AB=='')) \<and>
   issues_request sample_lib (after_first_page sample_config (JStr ''AB=='')) \<and>
   fetch_page sample_lib (serve two_pages) sample_config 1 (JStr ''AB=='')
     = Inr [(''success'', JInt 1), (''cursor'', JStr ''AB==''), (''reviews'', JList [])] \<and>
   fetch_all_steam_reviews_for_app sample_lib (serve two_pages) sample_now sample_config
     = Some ([Request (request_for sample_config (JStr ''*'')), Sleep F_0_25,
              Request (request_for sample_config (JStr ''AB==''))],
             Inr \<lparr> res_appid = 413150, fetched_at_utc = sample_now,
                   request_params = query_of sample_config, count = 2,
                   last_cursor = JStr ''AB=='',
                   reviews = [Normalized (sample_normalized ''1''),
                              Normalized (sample_normalized ''2'')],
                   res_raw_reviews = None \<rparr>)"
proof -
  let ?st = "after_first_page sample_config (JStr ''AB=='')"
  let ?data = "[(''success'', JInt 1), (''cursor'', JStr ''AB==''), (''reviews'', JList [])]
                 :: (string \<times> sample_float json) list"
  have valid: "1 \<le> num_per_page sample_config \<and> num_per_page sample_config \<le> 100"
    by (simp add: sample_config_simps)
  have reach: "after_passes sample_lib (serve two_pages) sample_config (Suc 0) initial_state
      = Some ?st"
    by (simp add: first_pass_sample two_pages_def)
  have guard: "issues_request sample_lib ?st"
    by (rule issues_request_after_first [where s = "''AB==''"]) simp_all
  have page0: "fetch_page sample_lib (serve two_pages) sample_config 1 (JStr ''AB=='')
      = Inr ?data"
    by (rule fetch_page_serve) (simp_all add: two_pages_def)
  then have page: "fetch_page sample_lib (serve two_pages) sample_config (request_no ?st)
      (cursor ?st) = Inr ?data"
    by (simp add: after_first_page_simps)
  have r: "map_of ?data ''reviews'' = Some (JList [])" by simp
  have c: "map_of ?data ''cursor'' = Some (JStr ''AB=='')" by simp
  from empty_page_ends_the_run [OF valid reach guard page r c, of sample_now]
  have "fetch_all_steam_reviews_for_app sample_lib (serve two_pages) sample_now sample_config
     = Some ([Request (request_for sample_config (JStr ''*'')), Sleep F_0_25,
              Request (request_for sample_config (JStr ''AB==''))],
             Inr \<lparr> res_appid = 413150, fetched_at_utc = sample_now,
                   request_params = query_of sample_config, count = 2,
                   last_cursor = JStr ''AB=='',
                   reviews = [Normalized (sample_normalized ''1''),
                              Normalized (sample_normalized ''2'')],
                   res_raw_reviews = None \<rparr>)"
    by (simp add: after_first_page_simps sample_config_simps)
  with reach guard page0 show ?thesis by blast
qed

text \<open>
  Claim C10. A successful payload without a \<^verbatim>\<open>reviews\<close> field, or with \<^verbatim>\<open>null\<close> there,
  raises nothing: it ends the run like an empty page, adding no records. Without a
  \<^verbatim>\<open>cursor\<close> field the final cursor is the cursor that the request carried.
\<close>

theorem missing_reviews_is_empty_page:
  assumes "1 \<le> num_per_page cfg \<and> num_per_page cfg \<le> 100"
    and "after_passes lib tr cfg n initial_state = Some st"
    and "issues_request lib st"
    and "fetch_page lib tr cfg (request_no st) (cursor st) = Inr data"
    and "map_of data ''reviews'' = None \<or> map_of data ''reviews'' = Some JNull"
  shows "fetch_all_steam_reviews_for_app lib tr now cfg =
     Some (events st @ [Request (request_for cfg (cursor st))],
           Inr \<lparr> res_appid = appid cfg, fetched_at_utc = now, request_params = query_of cfg,
                 count = length (normalized_reviews st),
                 last_cursor = (case map_of data ''cursor'' of
                                  None \<Rightarrow> cursor st | Some c \<Rightarrow> c),
                 reviews = normalized_reviews st,
                 res_raw_reviews = (if include_raw cfg then Some (raw_reviews st) else None) \<rparr>)"
proof -
  from assms(5) have "\<not> py_bool lib (dict_get data ''reviews'' JNull)"
    by (auto simp: dict_get_def py_bool_def)
  from empty_page_result [OF assms(1-4) this] show ?thesis
    by (simp add: result_of_def dict_get_def)
qed

theorem missing_reviews_is_empty_page_witness:
  "fetch_page sample_lib (serve [bare_success]) sample_config 0 (JStr ''*'')
     = Inr [(''success'', JInt 1)] \<and>
   fetch_all_steam_reviews_for_app sample_lib (serve [bare_success]) sample_now sample_config
     = Some ([Request (request_for sample_config (JStr ''*''))],
             Inr \<lparr> res_appid = 413150, fetched_at_utc = sample_now,
                   request_params = query_of sample_config, count = 0,
                   last_cursor = JStr ''*'', reviews = [], res_raw_reviews = None \<rparr>)"
proof -
  let ?data = "[(''success'', JInt 1)] :: (string \<times> sample_float json) list"
  have valid: "1 \<le> num_per_page sample_config \<and> num_per_page sample_config \<le> 100"
    by (simp add: sample_config_simps)
  have reach: "after_passes sample_lib (serve [bare_success]) sample_config 0 initial_state
      = Some initial_state"
    by simp
  have page0: "fetch_page sample_lib (serve [bare_success]) sample_config 0 (JStr ''*'')
      = Inr ?data"
    by (simp add: fetch_page_def serve_def bare_success_def eq_int_def dict_get_def)
  then have page: "fetch_page sample_lib (serve [bare_success]) sample_config
      (request_no initial_state) (cursor initial_state) = Inr ?data"
    by (simp add: initial_state_simps)
  have r: "map_of ?data ''reviews'' = None \<or> map_of ?data ''reviews'' = Some JNull"
    by simp
  from missing_reviews_is_empty_page [OF valid reach issues_request_initial page r, of sample_now]
  have "fetch_all_steam_reviews_for_app sample_lib (serve [bare_success]) sample_now
      sample_config
     = Some ([Request (request_for sample_config (JStr ''*''))],
             Inr \<lparr> res_appid = 413150, fetched_at_utc = sample_now,
                   request_params = query_of sample_config, count = 0,
                   last_cursor = JStr ''*'', reviews = [], res_raw_reviews = None \<rparr>)"
    by (simp add: initial_state_simps sample_config_simps)
  with page0 show ?thesis by blast
qed






lemma loop_body_Continue_log:
  assumes "loop_body lib tr cfg st = Continue s'"
  shows "events s' = events st @ [Request (request_for cfg (cursor st)), Sleep (sleep_seconds cfg)]"
  using loop_body_effect [of lib tr cfg st] unfolding assms by clarsimp

lemma loop_body_Continue_appended:
  assumes c: "loop_body lib tr cfg st = Continue s'"
  shows "(\<exists>outs. outs \<noteq> [] \<and> normalized_reviews s' = normalized_reviews st @ outs) \<and>
      \<not> cap_reached cfg (normalized_reviews s')"
  using loop_body_Continue [OF c] by auto

lemma loop_body_final_log:
  assumes "\<forall>s. loop_body lib tr cfg st \<noteq> Continue s"
  shows "events (state_of (loop_body lib tr cfg st)) = events st \<and> \<not> issues_request lib st \<or>
     events (state_of (loop_body lib tr cfg st))
       = events st @ [Request (request_for cfg (cursor st))]"
  using loop_body_effect [of lib tr cfg st] assms
  by (elim disjE exE conjE) simp_all

lemma loop_body_Break_log:
  assumes b: "loop_body lib tr cfg st = Break s'"
  shows "events s' = events st \<and> \<not> issues_request lib st \<or>
      events s' = events st @ [Request (request_for cfg (cursor st))]"
proof -
  from b have "\<forall>s. loop_body lib tr cfg st \<noteq> Continue s" by simp
  from loop_body_final_log [OF this]
  show ?thesis
    unfolding b by simp
qed

lemma loop_body_Raise_log:
  assumes r: "loop_body lib tr cfg st = Raise s' e"
  shows "events s' = events st \<and> \<not> issues_request lib st \<or>
      events s' = events st @ [Request (request_for cfg (cursor st))]"
proof -
  from r have "\<forall>s. loop_body lib tr cfg st \<noteq> Continue s" by simp
  from loop_body_final_log [OF this]
  show ?thesis
    unfolding r by simp
qed

lemma finished_log_paced:
  assumes f: "fetch_all_steam_reviews_for_app lib tr now cfg = Some (evs, res)"
  shows "paced evs"
proof -
  from fetch_all_finished [OF f] show "paced evs"
  proof
    assume "evs = [] \<and> \<not> (1 \<le> num_per_page cfg \<and> num_per_page cfg \<le> 100)"
    then show ?thesis by simp
  next
    assume "\<exists>n st. after_passes lib tr cfg n initial_state = Some st \<and>
      evs = events (state_of (loop_body lib tr cfg st)) \<and>
      (\<forall>s. loop_body lib tr cfg st \<noteq> Continue s)"
    then obtain m s where
      m: "after_passes lib tr cfg m initial_state = Some s"
      and evs: "evs = events (state_of (loop_body lib tr cfg s))"
      by blast
    from log_inv_pass [OF log_inv_reach [OF m], of tr cfg]
    show ?thesis
      unfolding evs by (elim conjE)
  qed
qed

text \<open>
  Claim C8, as amended. A pass that goes on to the next one has appended a non-empty
  page without reaching the cap and has logged its request and, directly after it, the
  delay. A pass that ends the run, by a break or by an exception, logs its request at
  most and no delay. So the log of every finished call is made of requests each
  followed by its delay, with one more request at the end unless the last pass stopped
  at the guard; a delay at the very end is the delay before that guard.
\<close>

theorem delay_only_after_continuing_append:
  "(\<forall>s'. loop_body lib tr cfg st = Continue s' \<longrightarrow>
      events s' = events st @ [Request (request_for cfg (cursor st)), Sleep (sleep_seconds cfg)] \<and>
      (\<exists>outs. outs \<noteq> [] \<and> normalized_reviews s' = normalized_reviews st @ outs) \<and>
      \<not> cap_reached cfg (normalized_reviews s')) \<and>
   (\<forall>s'. loop_body lib tr cfg st = Break s' \<longrightarrow>
      events s' = events st \<and> \<not> issues_request lib st \<or>
      events s' = events st @ [Request (request_for cfg (cursor st))]) \<and>
   (\<forall>s' e. loop_body lib tr cfg st = Raise s' e \<longrightarrow>
      events s' = events st \<and> \<not> issues_request lib st \<or>
      events s' = events st @ [Request (request_for cfg (cursor st))]) \<and>
   (\<forall>evs res. fetch_all_steam_reviews_for_app lib tr now cfg = Some (evs, res) \<longrightarrow>
      paced evs)"
proof (intro conjI allI impI)
  fix s'
  assume "loop_body lib tr cfg st = Continue s'"
  then show "events s' =
      events st @ [Request (request_for cfg (cursor st)), Sleep (sleep_seconds cfg)]"
    by (rule loop_body_Continue_log)
next
  fix s'
  assume "loop_body lib tr cfg st = Continue s'"
  from loop_body_Continue_appended [OF this]
  show "\<exists>outs. outs \<noteq> [] \<and> normalized_reviews s' = normalized_reviews st @ outs"
    by (rule conjunct1)
next
  fix s'
  assume "loop_body lib tr cfg st = Continue s'"
  from loop_body_Continue_appended [OF this]
  show "\<not> cap_reached cfg (normalized_reviews s')"
    by (rule conjunct2)
next
  fix s'
  assume "loop_body lib tr cfg st = Break s'"
  then show "events s' = events st \<and> \<not> issues_request lib st \<or>
      events s' = events st @ [Request (request_for cfg (cursor st))]"
    by (rule loop_body_Break_log)
next
  fix s' e
  assume "loop_body lib tr cfg st = Raise s' e"
  then show "events s' = events st \<and> \<not> issues_request lib st \<or>
      events s' = events st @ [Request (request_for cfg (cursor st))]"
    by (rule loop_body_Raise_log)
next
  fix evs res
  assume "fetch_all_steam_reviews_for_app lib tr now cfg = Some (evs, res)"
  then show "paced evs"
    by (rule finished_log_paced)
qed

theorem delay_only_after_continuing_append_witness:
  "loop_body sample_lib (serve two_pages) sample_config initial_state
     = Continue (after_first_page sample_config (JStr ''AB=='')) \<and>
   events (after_first_page sample_config (JStr ''AB==''))
     = events initial_state
         @ [Request (request_for sample_config (cursor initial_state)),
            Sleep (sleep_seconds sample_config)] \<and>
   \<not> cap_reached sample_config
       (normalized_reviews (after_first_page sample_config (JStr ''AB==''))) \<and>
   paced [Request (request_for sample_config (JStr ''*'')), Sleep F_0_25,
          Request (request_for sample_config (JStr ''AB=='')) :: sample_float event]"
proof -
  let ?st = "after_first_page sample_config (JStr ''AB=='')"
  have c: "loop_body sample_lib (serve two_pages) sample_config initial_state = Continue ?st"
    by (simp add: first_pass_sample two_pages_def)
  from delay_only_after_continuing_append
    [of sample_lib "serve two_pages" sample_config initial_state sample_now] c
  have "events ?st = events initial_state
         @ [Request (request_for sample_config (cursor initial_state)),
            Sleep (sleep_seconds sample_config)]"
    and "\<not> cap_reached sample_config (normalized_reviews ?st)"
    by blast+
  with c show ?thesis by simp
qed

text \<open>
  Claim C8, as stated, fails when the loop guard ends the run: the pass before it has
  appended its page and slept, and no request follows that delay. The log of the run
  against \<open>stuck_pages\<close> ends with the delay.
\<close>

theorem delay_without_next_fetch_counterexample:
  "log_of (fetch_all_steam_reviews_for_app sample_lib (serve stuck_pages) sample_now
             sample_config)
     = Some [Request (request_for sample_config (JStr ''*'')), Sleep F_0_25] \<and>
   \<not> delay_before_request
       [Request (request_for sample_config (JStr ''*'')), Sleep F_0_25 :: sample_float event]"
proof -
  let ?st = "after_first_page sample_config (JStr ''*'')"
  have valid: "1 \<le> num_per_page sample_config \<and> num_per_page sample_config \<le> 100"
    by (simp add: sample_config_simps)
  have reach: "after_passes sample_lib (serve stuck_pages) sample_config (Suc 0) initial_state
      = Some ?st"
    by (simp add: first_pass_sample stuck_pages_def)
  have "loop_body sample_lib (serve stuck_pages) sample_config ?st = Break ?st"
    by (rule loop_body_guard [where k = "KStr ''*''"])
       (simp_all add: after_first_page_simps to_key_def seen_def)
  from fetch_all_Break [OF valid reach this, of sample_now] show ?thesis
    by (simp add: log_of_def after_first_page_simps sample_config_simps)
qed

end
